theory Spec2Isabelle
  imports Complex_Main "HOL-Library.AList"
begin

section \<open>Numbers\<close>

text \<open>
  The numeric fields of a token are JavaScript numbers, that is binary64 floating-point
  numbers. The model keeps a finite value, the two infinities and NaN, and every
  arithmetic operation rounds its exact result as binary64 does: to the nearest number
  with a significand of 53 bits, a tie to the even significand, and to an infinity when
  the rounded magnitude reaches \<open>2 ^ 1024\<close>. Two things are left out: exponents are
  not bounded below (no gradual underflow) and zero has no sign (a division of a non-zero
  value by zero gives the infinity of the sign of the numerator, as for \<open>+0\<close>).
\<close>

datatype jsnum = Fin real | PInf | NInf | NaN

text \<open>The integer nearest to a number, the even one of two that are equally near.\<close>

definition roundHalfEven :: "real \<Rightarrow> int" where
  "roundHalfEven m =
     (let f = \<lfloor>m\<rfloor>; d = m - of_int f
      in if d < 1 / 2 then f
         else if 1 / 2 < d then f + 1
         else if even f then f else f + 1)"

text \<open>
  A positive number rounded to 53 significant bits: it is doubled or halved until it lies
  between \<open>2 ^ 52\<close> and \<open>2 ^ 53\<close>, rounded to an integer there, and scaled back.
\<close>

definition roundMeasure :: "real \<Rightarrow> nat" where
  "roundMeasure x = 2 * nat \<lceil>2 ^ 52 / x\<rceil> + nat \<lfloor>x / 2 ^ 52\<rfloor>"

function round53 :: "real \<Rightarrow> real" where
  "round53 x =
     (if x \<le> 0 then 0
      else if x < 2 ^ 52 then round53 (2 * x) / 2
      else if 2 ^ 53 \<le> x then 2 * round53 (x / 2)
      else of_int (roundHalfEven x))"
  by pat_completeness auto
termination
proof (relation "measure roundMeasure")
  show "wf (measure roundMeasure)" by simp
next
  fix x :: real
  assume "\<not> x \<le> 0" and small: "x < 2 ^ 52"
  then have pos: "0 < x" by simp
  define y where "y = 2 ^ 52 / x"
  have y: "1 < y" using pos small by (simp add: y_def)
  then have c2: "2 \<le> \<lceil>y\<rceil>" by linarith
  have "y / 2 \<le> of_int \<lceil>y\<rceil> / 2" by (simp add: divide_right_mono)
  also have "\<dots> \<le> of_int (\<lceil>y\<rceil> - 1)" using c2 by simp
  finally have 1: "\<lceil>y / 2\<rceil> \<le> \<lceil>y\<rceil> - 1" by (simp only: ceiling_le_iff)
  have c: "0 < \<lceil>y / 2\<rceil>" using y by simp
  have e: "2 ^ 52 / (2 * x) = y / 2" by (simp add: y_def)
  have "x / 2 ^ 52 < 1" "0 \<le> x / 2 ^ 52" using pos small by simp_all
  then have 2: "\<lfloor>x / 2 ^ 52\<rfloor> = 0" by linarith
  have "2 * x / 2 ^ 52 < 2" "0 \<le> 2 * x / 2 ^ 52" using pos small by simp_all
  then have 3: "\<lfloor>2 * x / 2 ^ 52\<rfloor> \<le> 1" by linarith
  have "roundMeasure (2 * x) < roundMeasure x"
    unfolding roundMeasure_def e y_def [symmetric] 2 using 1 3 c by linarith
  then show "(2 * x, x) \<in> measure roundMeasure" by simp
next
  fix x :: real
  assume "\<not> x \<le> 0" "\<not> x < 2 ^ 52" and big: "2 ^ 53 \<le> x"
  define z where "z = x / 2 ^ 52"
  have z: "2 \<le> z" using big by (simp add: z_def field_simps)
  then have "z / 2 \<le> z - 1" by simp
  then have "\<lfloor>z / 2\<rfloor> \<le> \<lfloor>z - 1\<rfloor>" by (rule floor_mono)
  then have 1: "\<lfloor>z / 2\<rfloor> < \<lfloor>z\<rfloor>" by simp
  have f: "0 \<le> \<lfloor>z / 2\<rfloor>" using z by simp
  have e: "x / 2 / 2 ^ 52 = z / 2" by (simp add: z_def)
  have "0 < 2 ^ 52 / x" "2 ^ 52 / x \<le> 1" using big by simp_all
  then have 2: "\<lceil>2 ^ 52 / x\<rceil> = 1" by (simp only: ceiling_eq_iff) simp
  have "0 < 2 ^ 52 / (x / 2)" "2 ^ 52 / (x / 2) \<le> 1" using big by simp_all
  then have 3: "\<lceil>2 ^ 52 / (x / 2)\<rceil> = 1" by (simp only: ceiling_eq_iff) simp
  have "roundMeasure (x / 2) < roundMeasure x"
    unfolding roundMeasure_def e z_def [symmetric] 2 3 using 1 f by linarith
  then show "(x / 2, x) \<in> measure roundMeasure" by simp
qed

declare round53.simps [simp del]

text \<open>The exact result of an operation as the JavaScript number that the operation gives.\<close>

definition overflowBound :: real where
  "overflowBound = 2 ^ 1024"

definition round64 :: "real \<Rightarrow> jsnum" where
  "round64 x =
     (if 0 \<le> x
      then (if round53 x < overflowBound then Fin (round53 x) else PInf)
      else (if round53 (- x) < overflowBound then Fin (- round53 (- x)) else NInf))"

text \<open>\<open>a - b\<close>\<close>

fun js_sub :: "jsnum \<Rightarrow> jsnum \<Rightarrow> jsnum" where
  "js_sub NaN _ = NaN"
| "js_sub _ NaN = NaN"
| "js_sub (Fin a) (Fin b) = round64 (a - b)"
| "js_sub (Fin a) PInf = NInf"
| "js_sub (Fin a) NInf = PInf"
| "js_sub PInf PInf = NaN"
| "js_sub PInf _ = PInf"
| "js_sub NInf NInf = NaN"
| "js_sub NInf _ = NInf"

text \<open>\<open>a / b\<close>: dividing by zero does not raise, it gives an infinity or NaN.\<close>

fun js_div :: "jsnum \<Rightarrow> jsnum \<Rightarrow> jsnum" where
  "js_div NaN _ = NaN"
| "js_div _ NaN = NaN"
| "js_div (Fin a) (Fin b) =
     (if b \<noteq> 0 then round64 (a / b)
      else if a = 0 then NaN
      else if 0 < a then PInf else NInf)"
| "js_div (Fin a) PInf = Fin 0"
| "js_div (Fin a) NInf = Fin 0"
| "js_div PInf (Fin b) = (if 0 \<le> b then PInf else NInf)"
| "js_div NInf (Fin b) = (if 0 \<le> b then NInf else PInf)"
| "js_div PInf _ = NaN"
| "js_div NInf _ = NaN"

text \<open>\<open>a * b\<close>\<close>

fun js_mul :: "jsnum \<Rightarrow> jsnum \<Rightarrow> jsnum" where
  "js_mul NaN _ = NaN"
| "js_mul _ NaN = NaN"
| "js_mul (Fin a) (Fin b) = round64 (a * b)"
| "js_mul (Fin a) PInf = (if a = 0 then NaN else if 0 < a then PInf else NInf)"
| "js_mul (Fin a) NInf = (if a = 0 then NaN else if 0 < a then NInf else PInf)"
| "js_mul PInf (Fin b) = (if b = 0 then NaN else if 0 < b then PInf else NInf)"
| "js_mul NInf (Fin b) = (if b = 0 then NaN else if 0 < b then NInf else PInf)"
| "js_mul PInf PInf = PInf"
| "js_mul PInf NInf = NInf"
| "js_mul NInf PInf = NInf"
| "js_mul NInf NInf = PInf"

text \<open>\<open>Math.abs\<close>\<close>

fun Math_abs :: "jsnum \<Rightarrow> jsnum" where
  "Math_abs (Fin a) = Fin \<bar>a\<bar>"
| "Math_abs PInf = PInf"
| "Math_abs NInf = PInf"
| "Math_abs NaN = NaN"

text \<open>\<open>a > b\<close>: every comparison with NaN is false.\<close>

fun js_gt :: "jsnum \<Rightarrow> jsnum \<Rightarrow> bool" where
  "js_gt NaN _ = False"
| "js_gt _ NaN = False"
| "js_gt (Fin a) (Fin b) = (b < a)"
| "js_gt (Fin a) PInf = False"
| "js_gt (Fin a) NInf = True"
| "js_gt PInf PInf = False"
| "js_gt PInf _ = True"
| "js_gt NInf _ = False"

text \<open>\<open>Math.max(a, b)\<close>: NaN as soon as one argument is NaN.\<close>

fun Math_max :: "jsnum \<Rightarrow> jsnum \<Rightarrow> jsnum" where
  "Math_max NaN _ = NaN"
| "Math_max _ NaN = NaN"
| "Math_max PInf _ = PInf"
| "Math_max _ PInf = PInf"
| "Math_max NInf b = b"
| "Math_max a NInf = a"
| "Math_max (Fin a) (Fin b) = Fin (max a b)"

section \<open>Tokens\<close>

text \<open>
  The interface \<open>Token\<close> of the backend's types. An optional field is an option; so is
  \<open>token_address\<close>, declared a string, which \<open>mergeTokens\<close> tests for being
  there: \<open>None\<close> is the address that is missing (undefined or null) at run time.
\<close>

record Token =
  token_address :: "string option"
  token_name :: string
  token_ticker :: string
  price_sol :: jsnum
  market_cap_sol :: jsnum
  volume_sol :: jsnum
  liquidity_sol :: jsnum
  transaction_count :: jsnum
  price_1hr_change :: jsnum
  price_24hr_change :: "jsnum option"
  price_7d_change :: "jsnum option"
  protocol :: string
  sources :: "string list option"
  last_updated :: "jsnum option"

text \<open>
  \<open>String.prototype.toLowerCase\<close> on the letters A to Z; every other character is
  left as it is (a \<open>char\<close> is a byte; token addresses are base-58 ASCII strings).
  Adding 32 to the code of a capital letter sets its bit 5.
\<close>

definition lower_char :: "char \<Rightarrow> char" where
  "lower_char c =
     (let n = (of_char c :: nat)
      in if 65 \<le> n \<and> n \<le> 90
         then Char (digit0 c) (digit1 c) (digit2 c) (digit3 c) (digit4 c) True (digit6 c) (digit7 c)
         else c)"

definition toLowerCase :: "string \<Rightarrow> string" where
  "toLowerCase s = map lower_char s"

section \<open>Aggregator.mergeTokens\<close>

text \<open>
  \<open>tokenMap\<close> is a JavaScript \<open>Map\<close>, which iterates in insertion order and keeps
  the position of a key that is set again: an association list with distinct keys,
  read with \<open>map_of\<close> and written with \<open>AList.update\<close>.
\<close>

type_synonym tokenMap = "(string \<times> Token) list"

text \<open>The body of the first \<open>forEach\<close>: a token with a truthy address is stored
  under its lower-cased address.\<close>

definition addDex :: "Token \<Rightarrow> tokenMap \<Rightarrow> tokenMap" where
  "addDex token tokenMap =
     (case token_address token of
        None \<Rightarrow> tokenMap
      | Some a \<Rightarrow>
          if a = [] then tokenMap
          else AList.update (toLowerCase a) token tokenMap)"

text \<open>The object \<open>{...existing, sources: [...(existing.sources || []), 'Jupiter'],
  volume_sol: Math.max(existing.volume_sol, jupToken.volume_sol)}\<close>.\<close>

definition mergeInto :: "Token \<Rightarrow> Token \<Rightarrow> Token" where
  "mergeInto existing jupToken =
     existing
       \<lparr> sources := Some ((case sources existing of None \<Rightarrow> [] | Some s \<Rightarrow> s) @ [''Jupiter'']),
         volume_sol := Math_max (volume_sol existing) (volume_sol jupToken) \<rparr>"

text \<open>The body of the second \<open>forEach\<close>.\<close>

definition addJupiter :: "Token \<Rightarrow> tokenMap \<Rightarrow> tokenMap" where
  "addJupiter jupToken tokenMap =
     (case token_address jupToken of
        None \<Rightarrow> tokenMap
      | Some a \<Rightarrow>
          if a = [] then tokenMap
          else
            (let address = toLowerCase a in
             case map_of tokenMap address of
               Some existing \<Rightarrow> AList.update address (mergeInto existing jupToken) tokenMap
             | None \<Rightarrow> AList.update address jupToken tokenMap))"

definition mergeTokens :: "Token list \<Rightarrow> Token list \<Rightarrow> Token list" where
  "mergeTokens dexTokens jupiterTokens =
     map snd (fold addJupiter jupiterTokens (fold addDex dexTokens []))"

text \<open>The identity key of a record: its lower-cased address, when it has a non-empty one.\<close>

definition identityKey :: "Token \<Rightarrow> string option" where
  "identityKey t =
     (case token_address t of
        None \<Rightarrow> None
      | Some a \<Rightarrow> if a = [] then None else Some (toLowerCase a))"

text \<open>The records of a list that have a given identity key.\<close>

definition recordsOf :: "string \<Rightarrow> Token list \<Rightarrow> Token list" where
  "recordsOf k tokens = filter (\<lambda>t. identityKey t = Some k) tokens"

section \<open>Aggregator.applyFiltersAndSort and Aggregator.sortTokens\<close>

text \<open>
  \<open>FilterOptions\<close>. Every field is optional. \<open>limit\<close> is an integer: the route
  passes \<open>parseInt\<close> of the query parameter and the scheduler the literal 30
  (\<open>parseInt\<close> may give NaN, which is falsy and so taken as the unset limit \<open>None\<close>).
  \<open>sortBy\<close> is the string that the route passes through unchecked.
\<close>

record FilterOptions =
  period :: "string option"
  sortBy :: "string option"
  limit :: "int option"
  cursor :: "string option"
  skipCache :: "bool option"

text \<open>\<open>config.pagination\<close>\<close>

definition defaultLimit :: int where
  "defaultLimit = 25"

definition maxLimit :: int where
  "maxLimit = 50"

text \<open>
  \<open>Array.prototype.sort\<close> with a comparison function: a stable sort, written as the
  insertion of each element, from the right, before the first element that it does not
  come after. The comparison function returns a number; the element \<open>a\<close> comes after
  \<open>b\<close> when \<open>cmp a b > 0\<close>, and a NaN counts as 0. (Every stable sort gives this list
  when the comparison is consistent; otherwise the order depends on the engine.)
\<close>

fun sortInsert :: "('a \<Rightarrow> 'a \<Rightarrow> jsnum) \<Rightarrow> 'a \<Rightarrow> 'a list \<Rightarrow> 'a list" where
  "sortInsert cmp x [] = [x]"
| "sortInsert cmp x (y # ys) =
     (if js_gt (cmp x y) (Fin 0) then y # sortInsert cmp x ys else x # y # ys)"

definition js_sort :: "('a \<Rightarrow> 'a \<Rightarrow> jsnum) \<Rightarrow> 'a list \<Rightarrow> 'a list" where
  "js_sort cmp xs = foldr (sortInsert cmp) xs []"

text \<open>The \<open>switch\<close> of \<open>sortTokens\<close>, with its default branch.\<close>

definition sortTokens :: "Token list \<Rightarrow> string \<Rightarrow> Token list" where
  "sortTokens tokens sortBy' =
     (if sortBy' = ''volume'' then
        js_sort (\<lambda>a b. js_sub (volume_sol b) (volume_sol a)) tokens
      else if sortBy' = ''price_change'' then
        js_sort (\<lambda>a b. js_sub (price_1hr_change b) (price_1hr_change a)) tokens
      else if sortBy' = ''market_cap'' then
        js_sort (\<lambda>a b. js_sub (market_cap_sol b) (market_cap_sol a)) tokens
      else
        js_sort (\<lambda>a b. js_sub (volume_sol b) (volume_sol a)) tokens)"

text \<open>
  \<open>xs.slice(0, end)\<close> for an integer \<open>end\<close>: a negative \<open>end\<close> counts from the
  end of the array.
\<close>

definition slice0 :: "'a list \<Rightarrow> int \<Rightarrow> 'a list" where
  "slice0 xs end' =
     (if end' < 0 then take (nat (int (length xs) + end')) xs else take (nat end') xs)"

text \<open>
  \<open>Math.min(options.limit || config.pagination.defaultLimit, config.pagination.maxLimit)\<close>:
  an unset limit and the limit 0 are falsy.
\<close>

definition effectiveLimit :: "FilterOptions \<Rightarrow> int" where
  "effectiveLimit options =
     min (case limit options of
            None \<Rightarrow> defaultLimit
          | Some n \<Rightarrow> if n = 0 then defaultLimit else n)
         maxLimit"

text \<open>\<open>if (options.sortBy)\<close>: an unset key and the empty string are falsy.\<close>

definition applyFiltersAndSort :: "Token list \<Rightarrow> FilterOptions \<Rightarrow> Token list" where
  "applyFiltersAndSort tokens options =
     (let filtered =
            (case sortBy options of
               None \<Rightarrow> tokens
             | Some s \<Rightarrow> if s = [] then tokens else sortTokens tokens s)
      in slice0 filtered (effectiveLimit options))"


section \<open>Aggregator.getTokens and the route of the query\<close>

text \<open>
  What \<open>getTokens\<close> returns, given what the cache holds under the key of the
  options (\<open>None\<close> is a miss) and the tokens that a live fetch gives, merged and
  enriched. The cache is consulted unless \<open>skipCache\<close> is set; a cached array,
  also an empty one, is truthy. (Writing the fetched tokens to the cache is left out.)
\<close>

definition getTokens :: "Token list option \<Rightarrow> Token list \<Rightarrow> FilterOptions \<Rightarrow> Token list" where
  "getTokens cached fetched options =
     (case (if skipCache options = Some True then None else cached) of
        Some tokens \<Rightarrow> applyFiltersAndSort tokens options
      | None \<Rightarrow> applyFiltersAndSort fetched options)"

text \<open>
  The query string of \<open>GET /tokens\<close>: each parameter is absent or a string. The
  route passes \<open>period\<close>, \<open>sortBy\<close> and \<open>cursor\<close> as they are (a type
  assertion checks nothing at run time) and \<open>limit\<close> through \<open>parseInt\<close>, a
  parameter here (\<open>None\<close> is NaN), when the parameter is a non-empty string.
\<close>

record Query =
  query_period :: "string option"
  query_sortBy :: "string option"
  query_limit :: "string option"
  query_cursor :: "string option"

definition routeOptions :: "(string \<Rightarrow> int option) \<Rightarrow> Query \<Rightarrow> FilterOptions" where
  "routeOptions parseInt query =
     \<lparr> period = query_period query,
       sortBy = query_sortBy query,
       limit = (case query_limit query of
                  None \<Rightarrow> Some defaultLimit
                | Some s \<Rightarrow> if s = [] then Some defaultLimit else parseInt s),
       cursor = query_cursor query,
       skipCache = None \<rparr>"

text \<open>The tokens of the response of the route.\<close>

definition tokensRoute ::
  "(string \<Rightarrow> int option) \<Rightarrow> Token list option \<Rightarrow> Token list \<Rightarrow> Query \<Rightarrow> Token list"
where
  "tokensRoute parseInt cached fetched query =
     getTokens cached fetched (routeOptions parseInt query)"

section \<open>Aggregator.detectChanges\<close>

text \<open>
  The state of the detector is the field \<open>previousTokens\<close>, a \<open>Map\<close> from the address
  as the token has it (not lower-cased; a missing address is a key as well) to the
  token. The two result arrays grow while the tokens are visited.
\<close>

record Detector =
  priceChanges :: "Token list"
  volumeSpikes :: "Token list"
  previousTokens :: "string option \<rightharpoonup> Token"

definition priceChangePercent :: "Token \<Rightarrow> Token \<Rightarrow> jsnum" where
  "priceChangePercent token previous =
     Math_abs (js_mul (js_div (js_sub (price_sol token) (price_sol previous))
                              (price_sol previous)) (Fin 100))"

definition volumeIncrease :: "Token \<Rightarrow> Token \<Rightarrow> jsnum" where
  "volumeIncrease token previous =
     js_mul (js_div (js_sub (volume_sol token) (volume_sol previous))
                    (volume_sol previous)) (Fin 100)"

text \<open>The body of the \<open>forEach\<close> of \<open>detectChanges\<close>.\<close>

definition detectToken :: "Token \<Rightarrow> Detector \<Rightarrow> Detector" where
  "detectToken token d =
     (let d2 =
        (case previousTokens d (token_address token) of
           Some previous \<Rightarrow>
             (let d1 = (if js_gt (priceChangePercent token previous) (Fin 5)
                        then d\<lparr>priceChanges := priceChanges d @ [token]\<rparr> else d)
              in if js_gt (volumeIncrease token previous) (Fin 50)
                 then d1\<lparr>volumeSpikes := volumeSpikes d1 @ [token]\<rparr> else d1)
         | None \<Rightarrow> d)
      in d2\<lparr>previousTokens := (previousTokens d2)(token_address token \<mapsto> token)\<rparr>)"

text \<open>
  \<open>detectChanges\<close> on the detector whose retained state is \<open>previous\<close>: the two
  arrays returned, and the state retained for the next call.
\<close>

definition detectChanges :: "Token list \<Rightarrow> (string option \<rightharpoonup> Token) \<Rightarrow> Detector" where
  "detectChanges currentTokens previous =
     fold detectToken currentTokens
       \<lparr>priceChanges = [], volumeSpikes = [], previousTokens = previous\<rparr>"

text \<open>
  The two percentages as the specification words them: for the price, the absolute
  value is that of the difference.
\<close>

definition specPriceDelta :: "jsnum \<Rightarrow> jsnum \<Rightarrow> jsnum" where
  "specPriceDelta currentPrice previousPrice =
     js_mul (js_div (Math_abs (js_sub currentPrice previousPrice)) previousPrice) (Fin 100)"

definition specVolumeDelta :: "jsnum \<Rightarrow> jsnum \<Rightarrow> jsnum" where
  "specVolumeDelta currentVolume previousVolume =
     js_mul (js_div (js_sub currentVolume previousVolume) previousVolume) (Fin 100)"

text \<open>
  The percentage of a price change in exact arithmetic, no operation rounded.
\<close>

definition exactPriceDelta :: "real \<Rightarrow> real \<Rightarrow> real" where
  "exactPriceDelta currentPrice previousPrice =
     \<bar>currentPrice - previousPrice\<bar> / previousPrice * 100"

text \<open>The snapshot as a map: each address of the list with the last record that has it.\<close>

definition snapshotMap :: "Token list \<Rightarrow> (string option \<rightharpoonup> Token)" where
  "snapshotMap tokens = map_of (rev (map (\<lambda>t. (token_address t, t)) tokens))"

section \<open>DexScreenerProvider.retryWithBackoff\<close>

text \<open>
  What \<open>isRetryableError\<close> reads of a thrown value: \<open>error.code\<close>, and the status of
  \<open>error.response\<close> when there is a response.
\<close>

record HttpError =
  code :: "string option"
  response_status :: "nat option"

definition isRetryableError :: "HttpError \<Rightarrow> bool" where
  "isRetryableError error =
     (code error = Some ''ECONNABORTED'' \<or>
      code error = Some ''ETIMEDOUT'' \<or>
      (case response_status error of None \<Rightarrow> False | Some status \<Rightarrow> 500 \<le> status) \<or>
      (case response_status error of None \<Rightarrow> False | Some status \<Rightarrow> status = 429))"

text \<open>\<open>config.rateLimit\<close>\<close>

definition maxRetries :: nat where
  "maxRetries = 3"

definition baseDelay :: nat where
  "baseDelay = 1000"

definition maxDelay :: nat where
  "maxDelay = 10000"

text \<open>
  The provider: its field \<open>retryCount\<close>, the delays passed to \<open>sleep\<close> so far, in
  order, and the outside world that the request \<open>fn\<close> reads and changes.
\<close>

record 'w Provider =
  retryCount :: nat
  slept :: "nat list"
  world :: 'w

definition backoffDelay :: "nat \<Rightarrow> nat" where
  "backoffDelay n = min (baseDelay * 2 ^ n) maxDelay"

text \<open>
  One call of \<open>retryWithBackoff\<close>, run alone (no other call of the same provider is
  interleaved with it). A request \<open>fn\<close> resolves with a response (\<open>Inr\<close>) or
  rejects with an error (\<open>Inl\<close>); so does \<open>retryWithBackoff\<close>.
\<close>

fun retryWithBackoff ::
  "('w \<Rightarrow> (HttpError + 'r) \<times> 'w) \<Rightarrow> nat \<Rightarrow> 'w Provider \<Rightarrow> (HttpError + 'r) \<times> 'w Provider"
where
  "retryWithBackoff fn retries p =
     (case fn (world p) of
        (Inr response, w) \<Rightarrow> (Inr response, p\<lparr>retryCount := 0, world := w\<rparr>)
      | (Inl error, w) \<Rightarrow>
          if retries = 0 \<or> \<not> isRetryableError error then (Inl error, p\<lparr>world := w\<rparr>)
          else
            (let delay = backoffDelay (retryCount p)
             in retryWithBackoff fn (retries - 1)
                  (p\<lparr>retryCount := retryCount p + 1, slept := slept p @ [delay], world := w\<rparr>)))"

declare retryWithBackoff.simps [simp del]

text \<open>
  One search of \<open>fetchTokens\<close>: the request under \<open>retryWithBackoff\<close> with the
  configured number of retries, \<open>then\<close> the callback that turns the response into
  tokens (it may throw), and the \<open>catch\<close> that turns every rejection into the empty array.
\<close>

definition searchTokens ::
  "('w \<Rightarrow> (HttpError + 'r) \<times> 'w) \<Rightarrow> ('r \<Rightarrow> HttpError + Token list) \<Rightarrow> 'w Provider
     \<Rightarrow> Token list \<times> 'w Provider"
where
  "searchTokens fn onResponse p =
     (case retryWithBackoff fn maxRetries p of
        (Inr response, p') \<Rightarrow>
          (case onResponse response of Inr tokens \<Rightarrow> (tokens, p') | Inl error \<Rightarrow> ([], p'))
      | (Inl error, p') \<Rightarrow> ([], p'))"

text \<open>A request that answers from a script: the outcomes left are the world.\<close>

fun scripted :: "(HttpError + 'r) list \<Rightarrow> (HttpError + 'r) \<times> (HttpError + 'r) list" where
  "scripted [] = (Inl \<lparr>code = None, response_status = None\<rparr>, [])"
| "scripted (outcome # rest) = (outcome, rest)"

section \<open>CacheService\<close>

text \<open>
  The Redis client and \<open>JSON\<close> are outside the repository: their operations are
  parameters. An operation of the client resolves (\<open>Inr\<close>) or rejects (\<open>Inl\<close>) and
  may change the client; \<open>JSON.parse\<close> returns or throws.
\<close>

record ('c, 'e) Redis =
  redis_get :: "'c \<Rightarrow> string \<Rightarrow> ('e + string option) \<times> 'c"
  redis_setex :: "'c \<Rightarrow> string \<Rightarrow> int \<Rightarrow> string \<Rightarrow> ('e + unit) \<times> 'c"
  redis_del :: "'c \<Rightarrow> string \<Rightarrow> ('e + unit) \<times> 'c"
  JSON_parse :: "string \<Rightarrow> 'e + Token list"
  JSON_stringify :: "Token list \<Rightarrow> 'e + string"

record 'c CacheService =
  client :: 'c
  isConnected :: bool

text \<open>The \<open>try\<close> block of \<open>get\<close>: \<open>Inl\<close> is a thrown error.\<close>

definition getTry ::
  "('c, 'e) Redis \<Rightarrow> 'c CacheService \<Rightarrow> string \<Rightarrow> ('e + Token list option) \<times> 'c CacheService"
where
  "getTry redis cache key =
     (if \<not> isConnected cache then (Inr None, cache)
      else
        (case redis_get redis (client cache) key of
           (Inl error, c) \<Rightarrow> (Inl error, cache\<lparr>client := c\<rparr>)
         | (Inr None, c) \<Rightarrow> (Inr None, cache\<lparr>client := c\<rparr>)
         | (Inr (Some data), c) \<Rightarrow>
             if data = [] then (Inr None, cache\<lparr>client := c\<rparr>)
             else
               (case JSON_parse redis data of
                  Inl error \<Rightarrow> (Inl error, cache\<lparr>client := c\<rparr>)
                | Inr tokens \<Rightarrow> (Inr (Some tokens), cache\<lparr>client := c\<rparr>))))"

text \<open>\<open>get\<close>: the \<open>catch\<close> returns null.\<close>

definition CacheService_get ::
  "('c, 'e) Redis \<Rightarrow> 'c CacheService \<Rightarrow> string \<Rightarrow> ('e + Token list option) \<times> 'c CacheService"
where
  "CacheService_get redis cache key =
     (case getTry redis cache key of
        (Inl error, cache') \<Rightarrow> (Inr None, cache')
      | (Inr result, cache') \<Rightarrow> (Inr result, cache'))"

text \<open>The \<open>try\<close> block of \<open>set\<close>.\<close>

definition setTry ::
  "('c, 'e) Redis \<Rightarrow> 'c CacheService \<Rightarrow> string \<Rightarrow> Token list \<Rightarrow> int
     \<Rightarrow> ('e + unit) \<times> 'c CacheService"
where
  "setTry redis cache key value' ttl =
     (if \<not> isConnected cache then (Inr (), cache)
      else
        (case JSON_stringify redis value' of
           Inl error \<Rightarrow> (Inl error, cache)
         | Inr data \<Rightarrow>
             (case redis_setex redis (client cache) key ttl data of
                (outcome, c) \<Rightarrow> (outcome, cache\<lparr>client := c\<rparr>))))"

text \<open>\<open>set\<close>: the \<open>catch\<close> only logs.\<close>

definition CacheService_set ::
  "('c, 'e) Redis \<Rightarrow> 'c CacheService \<Rightarrow> string \<Rightarrow> Token list \<Rightarrow> int
     \<Rightarrow> ('e + unit) \<times> 'c CacheService"
where
  "CacheService_set redis cache key value' ttl =
     (case setTry redis cache key value' ttl of
        (Inl error, cache') \<Rightarrow> (Inr (), cache')
      | (Inr u, cache') \<Rightarrow> (Inr u, cache'))"

text \<open>The \<open>try\<close> block of \<open>delete\<close>.\<close>

definition deleteTry ::
  "('c, 'e) Redis \<Rightarrow> 'c CacheService \<Rightarrow> string \<Rightarrow> ('e + unit) \<times> 'c CacheService"
where
  "deleteTry redis cache key =
     (if \<not> isConnected cache then (Inr (), cache)
      else
        (case redis_del redis (client cache) key of
           (outcome, c) \<Rightarrow> (outcome, cache\<lparr>client := c\<rparr>)))"

text \<open>\<open>delete\<close>: the \<open>catch\<close> only logs.\<close>

definition CacheService_delete ::
  "('c, 'e) Redis \<Rightarrow> 'c CacheService \<Rightarrow> string \<Rightarrow> ('e + unit) \<times> 'c CacheService"
where
  "CacheService_delete redis cache key =
     (case deleteTry redis cache key of
        (Inl error, cache') \<Rightarrow> (Inr (), cache')
      | (Inr u, cache') \<Rightarrow> (Inr u, cache'))"

text \<open>
  A store for the examples: a client that holds the stored strings and whether the
  store can be reached; every operation on a store that cannot be reached rejects.
\<close>

record MemoryStore =
  entries :: "(string \<times> string) list"
  reachable :: bool

definition memoryRedis :: "(MemoryStore, string) Redis" where
  "memoryRedis =
     \<lparr> redis_get = (\<lambda>c k. if reachable c then (Inr (map_of (entries c) k), c)
                            else (Inl ''connection lost'', c)),
       redis_setex = (\<lambda>c k ttl v. if reachable c
                            then (Inr (), c\<lparr>entries := AList.update k v (entries c)\<rparr>)
                            else (Inl ''connection lost'', c)),
       redis_del = (\<lambda>c k. if reachable c
                            then (Inr (), c\<lparr>entries := AList.delete k (entries c)\<rparr>)
                            else (Inl ''connection lost'', c)),
       JSON_parse = (\<lambda>s. Inl ''unexpected token''),
       JSON_stringify = (\<lambda>ts. Inr ''[]'') \<rparr>"

section \<open>Auxiliary definitions\<close>

text \<open>The token map that \<open>mergeTokens\<close> builds, before its values are listed.\<close>

definition tokenMapOf :: "Token list \<Rightarrow> Token list \<Rightarrow> tokenMap" where
  "tokenMapOf dexTokens jupiterTokens = fold addJupiter jupiterTokens (fold addDex dexTokens [])"

text \<open>Every entry of the token map is stored under the identity key of its token.\<close>

definition keyed :: "tokenMap \<Rightarrow> bool" where
  "keyed m = (distinct (map fst m) \<and> list_all (\<lambda>(k, t). identityKey t = Some k) m)"

text \<open>
  A token without its \<open>sources\<close>, to compare two tokens on every other field; and
  a token map that already holds, for a Jupiter token, an entry under its key whose volume
  is not below the token's.
\<close>

definition withoutSources :: "Token \<Rightarrow> Token" where
  "withoutSources t = t\<lparr>sources := None\<rparr>"

definition covers :: "tokenMap \<Rightarrow> Token \<Rightarrow> bool" where
  "covers m j =
     (case identityKey j of
        None \<Rightarrow> True
      | Some k \<Rightarrow>
          (case map_of m k of
             None \<Rightarrow> False
           | Some e \<Rightarrow> Math_max (volume_sol e) (volume_sol j) = volume_sol e))"

text \<open>Whether \<open>detectChanges\<close> flags a token against a given baseline map.\<close>

definition priceFlag :: "(string option \<rightharpoonup> Token) \<Rightarrow> Token \<Rightarrow> bool" where
  "priceFlag prev t =
     (case prev (token_address t) of
        None \<Rightarrow> False
      | Some p \<Rightarrow> js_gt (priceChangePercent t p) (Fin 5))"

definition volumeFlag :: "(string option \<rightharpoonup> Token) \<Rightarrow> Token \<Rightarrow> bool" where
  "volumeFlag prev t =
     (case prev (token_address t) of
        None \<Rightarrow> False
      | Some p \<Rightarrow> js_gt (volumeIncrease t p) (Fin 50))"

text \<open>Values for the examples.\<close>

definition exampleToken :: "string \<Rightarrow> real \<Rightarrow> real \<Rightarrow> string \<Rightarrow> Token" where
  "exampleToken address price volume source =
     \<lparr> token_address = Some address, token_name = ''Example'', token_ticker = ''EX'',
       price_sol = Fin price, market_cap_sol = Fin 0, volume_sol = Fin volume,
       liquidity_sol = Fin 0, transaction_count = Fin 0, price_1hr_change = Fin 0,
       price_24hr_change = Some (Fin 0), price_7d_change = None, protocol = source,
       sources = Some [source], last_updated = None \<rparr>"

definition serverError :: HttpError where
  "serverError = \<lparr>code = None, response_status = Some 503\<rparr>"

definition freshProvider :: "'w \<Rightarrow> 'w Provider" where
  "freshProvider w = \<lparr>retryCount = 0, slept = [], world = w\<rparr>"

definition noQuery :: Query where
  "noQuery = \<lparr>query_period = None, query_sortBy = None, query_limit = None, query_cursor = None\<rparr>"

definition noOptions :: FilterOptions where
  "noOptions = \<lparr>period = None, sortBy = None, limit = None, cursor = None, skipCache = None\<rparr>"

section \<open>Properties of the merge\<close>

subsection \<open>Math.max\<close>

lemma Math_max_idem: "Math_max a a = a"
  by (cases a) simp_all

lemma Math_max_commute: "Math_max a b = Math_max b a"
  by (cases a; cases b) (simp_all add: max.commute)

lemma Math_max_assoc: "Math_max (Math_max a b) c = Math_max a (Math_max b c)"
  by (cases a; cases b; cases c) (simp_all add: max.assoc)

lemma Math_max_absorb: "Math_max (Math_max a b) b = Math_max a b"
  by (simp add: Math_max_assoc Math_max_idem)

subsection \<open>The token map\<close>

lemma keyed_Nil: "keyed []"
  by (simp add: keyed_def)

lemma list_all_update:
  "list_all P m \<Longrightarrow> P (k, v) \<Longrightarrow> list_all P (AList.update k v m)"
  by (induction m) auto

lemma keyed_update:
  "keyed m \<Longrightarrow> identityKey t = Some k \<Longrightarrow> keyed (AList.update k t m)"
  by (simp add: keyed_def distinct_update list_all_update)

lemma keyed_lookup: "keyed m \<Longrightarrow> map_of m k = Some t \<Longrightarrow> identityKey t = Some k"
  by (auto simp: keyed_def list_all_iff dest!: map_of_SomeD)

lemma identityKey_mergeInto: "identityKey (mergeInto e j) = identityKey e"
  by (simp add: identityKey_def mergeInto_def)

lemma addDex_conv:
  "addDex t m = (case identityKey t of None \<Rightarrow> m | Some k \<Rightarrow> AList.update k t m)"
  by (simp add: addDex_def identityKey_def split: option.splits)

lemma addJupiter_conv:
  "addJupiter j m =
     (case identityKey j of
        None \<Rightarrow> m
      | Some k \<Rightarrow>
          AList.update k (case map_of m k of None \<Rightarrow> j | Some e \<Rightarrow> mergeInto e j) m)"
  by (simp add: addJupiter_def identityKey_def Let_def split: option.splits)

lemma keyed_addDex: "keyed m \<Longrightarrow> keyed (addDex t m)"
  by (simp add: addDex_conv keyed_update split: option.splits)

lemma keyed_addJupiter: "keyed m \<Longrightarrow> keyed (addJupiter j m)"
  by (auto simp: addJupiter_conv identityKey_mergeInto intro!: keyed_update
           dest: keyed_lookup split: option.splits)

lemma keyed_fold_addDex: "keyed m \<Longrightarrow> keyed (fold addDex ts m)"
  by (induction ts arbitrary: m) (simp_all add: keyed_addDex)

lemma keyed_fold_addJupiter: "keyed m \<Longrightarrow> keyed (fold addJupiter ts m)"
  by (induction ts arbitrary: m) (simp_all add: keyed_addJupiter)

text \<open>The keys of the token map.\<close>

lemma map_filter_append: "List.map_filter f (xs @ ys) = List.map_filter f xs @ List.map_filter f ys"
  by (simp add: List.map_filter_def)

lemma keys_addDex:
  "fst ` set (addDex t m) = set_option (identityKey t) \<union> fst ` set m"
  by (simp add: addDex_conv dom_update split: option.splits)

lemma keys_addJupiter:
  "fst ` set (addJupiter t m) = set_option (identityKey t) \<union> fst ` set m"
  by (simp add: addJupiter_conv dom_update split: option.splits)

lemma keys_fold_addDex:
  "fst ` set (fold addDex ts m) = set (List.map_filter identityKey ts) \<union> fst ` set m"
proof (induction ts arbitrary: m)
  case Nil
  show ?case by simp
next
  case (Cons t ts)
  show ?case
    by (cases "identityKey t") (auto simp: Cons.IH keys_addDex)
qed

lemma keys_fold_addJupiter:
  "fst ` set (fold addJupiter ts m) = set (List.map_filter identityKey ts) \<union> fst ` set m"
proof (induction ts arbitrary: m)
  case Nil
  show ?case by simp
next
  case (Cons t ts)
  show ?case
    by (cases "identityKey t") (auto simp: Cons.IH keys_addJupiter)
qed

lemma keyed_map_identityKey: "keyed m \<Longrightarrow> map identityKey (map snd m) = map (Some \<circ> fst) m"
  by (induction m) (auto simp: keyed_def)

lemma keyed_tokenMapOf: "keyed (tokenMapOf ds js)"
  by (simp add: tokenMapOf_def keyed_fold_addJupiter keyed_fold_addDex keyed_Nil)

lemma keys_tokenMapOf:
  "set (map fst (tokenMapOf ds js)) = set (List.map_filter identityKey (ds @ js))"
  by (auto simp: tokenMapOf_def keys_fold_addJupiter keys_fold_addDex map_filter_append)

lemma addDex_dropped: "identityKey t = None \<Longrightarrow> addDex t m = m"
  by (simp add: addDex_conv)

lemma addJupiter_dropped: "identityKey t = None \<Longrightarrow> addJupiter t m = m"
  by (simp add: addJupiter_conv)

lemma fold_addDex_filter:
  "fold addDex (filter (\<lambda>t. identityKey t \<noteq> None) ts) m = fold addDex ts m"
  by (induction ts arbitrary: m) (auto simp: addDex_dropped)

lemma fold_addJupiter_filter:
  "fold addJupiter (filter (\<lambda>t. identityKey t \<noteq> None) ts) m = fold addJupiter ts m"
  by (induction ts arbitrary: m) (auto simp: addJupiter_dropped)

text \<open>
  Claim C8 (merge key set and dedup). The merged list has one record for each distinct
  lower-cased non-empty address of the two inputs: the identity keys of the records of
  the output are pairwise distinct, they are the identity keys that occur in the inputs,
  and so the output has as many records as the inputs have distinct keys (one record
  when all the keyed input records share their key). A record whose address is missing
  or empty contributes nothing: the merge of the inputs without these records is the
  same list. \<open>mergeTokens\<close> has no failing branch.
\<close>

theorem C8_merge_keys:
  "distinct (map identityKey (mergeTokens dexTokens jupiterTokens)) \<and>
   set (map identityKey (mergeTokens dexTokens jupiterTokens)) =
     Some ` set (List.map_filter identityKey (dexTokens @ jupiterTokens)) \<and>
   length (mergeTokens dexTokens jupiterTokens) =
     card (set (List.map_filter identityKey (dexTokens @ jupiterTokens))) \<and>
   mergeTokens (filter (\<lambda>t. identityKey t \<noteq> None) dexTokens)
               (filter (\<lambda>t. identityKey t \<noteq> None) jupiterTokens) =
     mergeTokens dexTokens jupiterTokens"
proof -
  let ?m = "tokenMapOf dexTokens jupiterTokens"
  have out: "mergeTokens dexTokens jupiterTokens = map snd ?m"
    by (simp add: mergeTokens_def tokenMapOf_def)
  have k: "keyed ?m" by (rule keyed_tokenMapOf)
  have ids: "map identityKey (map snd ?m) = map (Some \<circ> fst) ?m"
    using k by (rule keyed_map_identityKey)
  have d: "distinct (map fst ?m)" using k by (simp add: keyed_def)
  have 1: "distinct (map identityKey (mergeTokens dexTokens jupiterTokens))"
    unfolding out ids using d by (simp add: distinct_map comp_def inj_on_def)
  have 2: "set (map identityKey (mergeTokens dexTokens jupiterTokens)) =
     Some ` set (List.map_filter identityKey (dexTokens @ jupiterTokens))"
  proof -
    have "set (map (Some \<circ> fst) ?m) = Some ` set (map fst ?m)"
      by (simp add: image_image)
    then show ?thesis
      unfolding out ids keys_tokenMapOf .
  qed
  have "length (map fst ?m) = card (set (map fst ?m))"
    using distinct_card [OF d] by simp
  then have 3: "length (mergeTokens dexTokens jupiterTokens) =
     card (set (List.map_filter identityKey (dexTokens @ jupiterTokens)))"
    unfolding out keys_tokenMapOf by simp
  have 4: "mergeTokens (filter (\<lambda>t. identityKey t \<noteq> None) dexTokens)
               (filter (\<lambda>t. identityKey t \<noteq> None) jupiterTokens) =
     mergeTokens dexTokens jupiterTokens"
    by (simp only: mergeTokens_def fold_addDex_filter fold_addJupiter_filter)
  from 1 2 3 4 show ?thesis by blast
qed

text \<open>
  Three records with the addresses AbC, ABC and abc, one with the empty address and one
  without an address give one record.
\<close>

theorem C8_merge_keys_witness:
  "length (mergeTokens
       [exampleToken ''AbC'' 2 5 ''DexScreener'', exampleToken ''ABC'' 2 6 ''DexScreener'',
        exampleToken '''' 1 1 ''DexScreener'']
       [exampleToken ''abc'' 3 7 ''Jupiter'',
        (exampleToken ''x'' 1 1 ''Jupiter'')\<lparr>token_address := None\<rparr>]) = 1"
  using C8_merge_keys [of
       "[exampleToken ''AbC'' 2 5 ''DexScreener'', exampleToken ''ABC'' 2 6 ''DexScreener'',
        exampleToken '''' 1 1 ''DexScreener'']"
       "[exampleToken ''abc'' 3 7 ''Jupiter'',
        (exampleToken ''x'' 1 1 ''Jupiter'')\<lparr>token_address := None\<rparr>]"]
  by (simp add: exampleToken_def identityKey_def toLowerCase_def lower_char_def
      List.map_filter_def)

subsection \<open>Priority of the primary source\<close>

lemma lookup_addDex:
  "map_of (addDex t m) k = (if identityKey t = Some k then Some t else map_of m k)"
  by (auto simp: addDex_conv update_conv' split: option.splits)

lemma lookup_addJupiter:
  "map_of (addJupiter j m) k =
     (if identityKey j = Some k
      then Some (case map_of m k of None \<Rightarrow> j | Some e \<Rightarrow> mergeInto e j)
      else map_of m k)"
  by (auto simp: addJupiter_conv update_conv' split: option.splits)

lemma lookup_fold_addDex_none:
  "filter (\<lambda>t. identityKey t = Some k) ts = [] \<Longrightarrow> map_of (fold addDex ts m) k = map_of m k"
  by (induction ts arbitrary: m) (auto simp: lookup_addDex split: if_splits)

lemma keyed_filter_absent:
  "keyed m \<Longrightarrow> k \<notin> fst ` set m \<Longrightarrow> filter (\<lambda>t. identityKey t = Some k) (map snd m) = []"
  by (induction m) (auto simp: keyed_def)

lemma keyed_filter_lookup:
  "keyed m \<Longrightarrow>
   filter (\<lambda>t. identityKey t = Some k) (map snd m) =
     (case map_of m k of None \<Rightarrow> [] | Some t \<Rightarrow> [t])"
proof (induction m)
  case Nil
  show ?case by simp
next
  case (Cons p m)
  from Cons.prems have km: "keyed m" and idp: "identityKey (snd p) = Some (fst p)"
    and fresh: "fst p \<notin> fst ` set m"
    by (auto simp: keyed_def)
  show ?case
  proof (cases "fst p = k")
    case True
    with fresh km have "filter (\<lambda>t. identityKey t = Some k) (map snd m) = []"
      by (simp add: keyed_filter_absent)
    with True idp show ?thesis by (cases p) simp
  next
    case False
    with idp Cons.IH [OF km] show ?thesis by (cases p) auto
  qed
qed

lemma lookup_fold_addDex_last:
  "recordsOf k ts \<noteq> [] \<Longrightarrow> map_of (fold addDex ts m) k = Some (last (recordsOf k ts))"
proof (induction ts arbitrary: m)
  case Nil
  then show ?case by (simp add: recordsOf_def)
next
  case (Cons t ts)
  show ?case
  proof (cases "recordsOf k ts = []")
    case True
    with Cons.prems have key: "identityKey t = Some k"
      by (auto simp: recordsOf_def split: if_splits)
    from True have "map_of (fold addDex ts (addDex t m)) k = map_of (addDex t m) k"
      unfolding recordsOf_def by (rule lookup_fold_addDex_none)
    with key True show ?thesis
      by (simp add: lookup_addDex recordsOf_def)
  next
    case False
    then have "map_of (fold addDex ts (addDex t m)) k = Some (last (recordsOf k ts))"
      by (rule Cons.IH)
    with False show ?thesis by (simp add: recordsOf_def)
  qed
qed

lemma lookup_fold_addJupiter_some:
  "map_of m k = Some e \<Longrightarrow>
   map_of (fold addJupiter ts m) k = Some (fold (\<lambda>j e. mergeInto e j) (recordsOf k ts) e)"
proof (induction ts arbitrary: m e)
  case Nil
  then show ?case by (simp add: recordsOf_def)
next
  case (Cons t ts)
  show ?case
  proof (cases "identityKey t = Some k")
    case True
    with Cons.prems have "map_of (addJupiter t m) k = Some (mergeInto e t)"
      by (simp add: lookup_addJupiter)
    then have "map_of (fold addJupiter ts (addJupiter t m)) k =
        Some (fold (\<lambda>j e. mergeInto e j) (recordsOf k ts) (mergeInto e t))"
      by (rule Cons.IH)
    with True show ?thesis by (simp add: recordsOf_def)
  next
    case False
    with Cons.prems have "map_of (addJupiter t m) k = Some e"
      by (simp add: lookup_addJupiter)
    then have "map_of (fold addJupiter ts (addJupiter t m)) k =
        Some (fold (\<lambda>j e. mergeInto e j) (recordsOf k ts) e)"
      by (rule Cons.IH)
    with False show ?thesis by (simp add: recordsOf_def)
  qed
qed

lemma fold_mergeInto_kept:
  "price_sol (fold (\<lambda>j e. mergeInto e j) js e) = price_sol e \<and>
   market_cap_sol (fold (\<lambda>j e. mergeInto e j) js e) = market_cap_sol e \<and>
   liquidity_sol (fold (\<lambda>j e. mergeInto e j) js e) = liquidity_sol e \<and>
   price_1hr_change (fold (\<lambda>j e. mergeInto e j) js e) = price_1hr_change e \<and>
   price_24hr_change (fold (\<lambda>j e. mergeInto e j) js e) = price_24hr_change e \<and>
   price_7d_change (fold (\<lambda>j e. mergeInto e j) js e) = price_7d_change e"
  by (induction js arbitrary: e) (simp_all add: mergeInto_def)

lemma fold_mergeInto_volume:
  "volume_sol (fold (\<lambda>j e. mergeInto e j) js e) =
     fold (\<lambda>j v. Math_max v (volume_sol j)) js (volume_sol e)"
  by (induction js arbitrary: e) (simp_all add: mergeInto_def)

lemma fold_mergeInto_sources:
  "js \<noteq> [] \<Longrightarrow>
   sources (fold (\<lambda>j e. mergeInto e j) js e) =
     Some ((case sources e of None \<Rightarrow> [] | Some s \<Rightarrow> s) @ replicate (length js) ''Jupiter'')"
proof (induction js arbitrary: e)
  case Nil
  then show ?case by simp
next
  case (Cons j js)
  show ?case
  proof (cases "js = []")
    case True
    then show ?thesis by (simp add: mergeInto_def)
  next
    case False
    then have "sources (fold (\<lambda>j e. mergeInto e j) js (mergeInto e j)) =
        Some ((case sources (mergeInto e j) of None \<Rightarrow> [] | Some s \<Rightarrow> s)
              @ replicate (length js) ''Jupiter'')"
      by (rule Cons.IH)
    then show ?thesis
      by (simp add: mergeInto_def replicate_app_Cons_same)
  qed
qed

text \<open>
  Claim C1 as stated (for every key present in both inputs the sources hold each source
  name once) fails: the Jupiter provider does not deduplicate, and two of its records
  under the key of a DexScreener record give the sources DexScreener, Jupiter, Jupiter.
\<close>

theorem C1_sources_counterexample:
  "recordsOf ''abc'' [exampleToken ''AbC'' 2 5 ''DexScreener''] \<noteq> [] \<and>
   recordsOf ''abc'' [exampleToken ''abc'' 3 7 ''Jupiter'', exampleToken ''ABC'' 4 6 ''Jupiter''] \<noteq> [] \<and>
   map sources
     (mergeTokens [exampleToken ''AbC'' 2 5 ''DexScreener'']
        [exampleToken ''abc'' 3 7 ''Jupiter'', exampleToken ''ABC'' 4 6 ''Jupiter''])
     = [Some [''DexScreener'', ''Jupiter'', ''Jupiter'']]"
  by (simp add: recordsOf_def mergeTokens_def addDex_def addJupiter_def mergeInto_def
      exampleToken_def identityKey_def toLowerCase_def lower_char_def)

text \<open>
  Claim C1, amended (priority law). Let the key \<open>k\<close> occur in both inputs and let
  \<open>d\<close> be the last primary (DexScreener) record under it, the one that the first
  loop leaves in the map. Then the output has one record with the key \<open>k\<close>: its
  price, market cap, liquidity and change percentages are those of \<open>d\<close>; its volume
  is \<open>Math.max\<close> over the volume of \<open>d\<close> and the volumes of the secondary
  (Jupiter) records under the key; its sources are the sources of \<open>d\<close> followed by
  Jupiter once for each secondary record under the key. So, when the secondary input has
  one record \<open>j\<close> under the key, the volume is \<open>Math.max\<close> of the volumes of
  \<open>d\<close> and \<open>j\<close>, and when \<open>d\<close> also carries the source name that the
  DexScreener provider gives its records, the sources are DexScreener and Jupiter, once
  each.
\<close>

theorem C1_priority:
  assumes dex: "recordsOf k dexTokens \<noteq> []"
    and jup: "recordsOf k jupiterTokens \<noteq> []"
    and d: "d = last (recordsOf k dexTokens)"
  shows "\<exists>r. recordsOf k (mergeTokens dexTokens jupiterTokens) = [r] \<and>
     price_sol r = price_sol d \<and>
     market_cap_sol r = market_cap_sol d \<and>
     liquidity_sol r = liquidity_sol d \<and>
     price_1hr_change r = price_1hr_change d \<and>
     price_24hr_change r = price_24hr_change d \<and>
     price_7d_change r = price_7d_change d \<and>
     volume_sol r =
       fold (\<lambda>j v. Math_max v (volume_sol j)) (recordsOf k jupiterTokens) (volume_sol d) \<and>
     sources r =
       Some ((case sources d of None \<Rightarrow> [] | Some s \<Rightarrow> s)
             @ replicate (length (recordsOf k jupiterTokens)) ''Jupiter'') \<and>
     (\<forall>j. recordsOf k jupiterTokens = [j] \<longrightarrow>
        volume_sol r = Math_max (volume_sol d) (volume_sol j) \<and>
        (sources d = Some [''DexScreener''] \<longrightarrow>
           sources r = Some [''DexScreener'', ''Jupiter'']))"
proof -
  let ?m = "tokenMapOf dexTokens jupiterTokens"
  let ?r = "fold (\<lambda>j e. mergeInto e j) (recordsOf k jupiterTokens) d"
  have "map_of (fold addDex dexTokens []) k = Some d"
    unfolding d using dex by (rule lookup_fold_addDex_last)
  then have "map_of ?m k = Some ?r"
    unfolding tokenMapOf_def by (rule lookup_fold_addJupiter_some)
  then have "filter (\<lambda>t. identityKey t = Some k) (map snd ?m) = [?r]"
    using keyed_filter_lookup [OF keyed_tokenMapOf, of k dexTokens jupiterTokens] by simp
  then have one: "recordsOf k (mergeTokens dexTokens jupiterTokens) = [?r]"
    by (simp add: mergeTokens_def tokenMapOf_def recordsOf_def)
  have src: "sources ?r =
       Some ((case sources d of None \<Rightarrow> [] | Some s \<Rightarrow> s)
             @ replicate (length (recordsOf k jupiterTokens)) ''Jupiter'')"
    using jup by (rule fold_mergeInto_sources)
  have vol: "volume_sol ?r =
       fold (\<lambda>j v. Math_max v (volume_sol j)) (recordsOf k jupiterTokens) (volume_sol d)"
    by (rule fold_mergeInto_volume)
  have single: "\<forall>j. recordsOf k jupiterTokens = [j] \<longrightarrow>
        volume_sol ?r = Math_max (volume_sol d) (volume_sol j) \<and>
        (sources d = Some [''DexScreener''] \<longrightarrow>
           sources ?r = Some [''DexScreener'', ''Jupiter''])"
    by (simp add: mergeInto_def)
  from one src vol single fold_mergeInto_kept [of "recordsOf k jupiterTokens" d]
  show ?thesis by blast
qed

text \<open>
  The amended claim C1 at the key abc, for the primary record with the address AbC
  (price 2, volume 5) and the one secondary record with the address aBc (price 3,
  volume 7).
\<close>

theorem C1_priority_witness:
  "\<exists>r. recordsOf ''abc''
          (mergeTokens [exampleToken ''AbC'' 2 5 ''DexScreener'', exampleToken ''Q'' 1 1 ''DexScreener'']
                       [exampleToken ''zz'' 9 9 ''Jupiter'', exampleToken ''aBc'' 3 7 ''Jupiter'']) = [r] \<and>
       price_sol r = Fin 2 \<and> volume_sol r = Fin 7 \<and>
       sources r = Some [''DexScreener'', ''Jupiter'']"
  using C1_priority [of "''abc''"
      "[exampleToken ''AbC'' 2 5 ''DexScreener'', exampleToken ''Q'' 1 1 ''DexScreener'']"
      "[exampleToken ''zz'' 9 9 ''Jupiter'', exampleToken ''aBc'' 3 7 ''Jupiter'']"
      "exampleToken ''AbC'' 2 5 ''DexScreener''"]
  by (simp add: recordsOf_def exampleToken_def identityKey_def toLowerCase_def lower_char_def, blast)

subsection \<open>Merging the secondary source again\<close>

lemma update_same_modulo:
  "map_of m k = Some e \<Longrightarrow> f e' = f e \<Longrightarrow>
   map (\<lambda>(k, t). (k, f t)) (AList.update k e' m) = map (\<lambda>(k, t). (k, f t)) m"
  by (induction m) (auto split: if_splits)

lemma withoutSources_mergeInto:
  "Math_max (volume_sol e) (volume_sol j) = volume_sol e \<Longrightarrow>
   withoutSources (mergeInto e j) = withoutSources e"
  by (simp add: withoutSources_def mergeInto_def)

lemma covers_addJupiter_same:
  "covers m j \<Longrightarrow>
   map (\<lambda>(k, t). (k, withoutSources t)) (addJupiter j m) = map (\<lambda>(k, t). (k, withoutSources t)) m"
  by (auto simp: covers_def addJupiter_conv withoutSources_mergeInto
           intro!: update_same_modulo split: option.splits)

lemma covers_addJupiter_self: "covers (addJupiter j m) j"
  by (auto simp: covers_def lookup_addJupiter mergeInto_def Math_max_absorb Math_max_idem
           split: option.splits)

lemma covers_addJupiter_keep: "covers m j \<Longrightarrow> covers (addJupiter j' m) j"
proof (cases "identityKey j")
  case None
  then show ?thesis by (simp add: covers_def)
next
  case (Some k)
  assume c: "covers m j"
  then obtain e where e: "map_of m k = Some e"
    and v: "Math_max (volume_sol e) (volume_sol j) = volume_sol e"
    using Some by (auto simp: covers_def split: option.splits)
  show ?thesis
  proof (cases "identityKey j' = Some k")
    case True
    have "Math_max (Math_max (volume_sol e) (volume_sol j')) (volume_sol j)
        = Math_max (Math_max (volume_sol e) (volume_sol j)) (volume_sol j')"
      by (metis Math_max_assoc Math_max_commute)
    then show ?thesis
      using True Some e v by (simp add: covers_def lookup_addJupiter mergeInto_def)
  next
    case False
    then show ?thesis
      using Some e v by (simp add: covers_def lookup_addJupiter)
  qed
qed

lemma covers_fold_keep: "covers m j \<Longrightarrow> covers (fold addJupiter js m) j"
  by (induction js arbitrary: m) (simp_all add: covers_addJupiter_keep)

lemma covers_fold_all: "j \<in> set js \<Longrightarrow> covers (fold addJupiter js m) j"
proof (induction js arbitrary: m)
  case Nil
  then show ?case by simp
next
  case (Cons a js)
  then show ?case
    by (auto simp: covers_fold_keep covers_addJupiter_self)
qed

lemma covered_fold_same:
  "\<forall>j \<in> set js. covers m j \<Longrightarrow>
   map (\<lambda>(k, t). (k, withoutSources t)) (fold addJupiter js m) =
   map (\<lambda>(k, t). (k, withoutSources t)) m"
proof (induction js arbitrary: m)
  case Nil
  show ?case by simp
next
  case (Cons a js)
  have "\<forall>j \<in> set js. covers (addJupiter a m) j"
    using Cons.prems by (simp add: covers_addJupiter_keep)
  then have "map (\<lambda>(k, t). (k, withoutSources t)) (fold addJupiter js (addJupiter a m)) =
      map (\<lambda>(k, t). (k, withoutSources t)) (addJupiter a m)"
    by (rule Cons.IH)
  also have "\<dots> = map (\<lambda>(k, t). (k, withoutSources t)) m"
    using Cons.prems by (simp add: covers_addJupiter_same)
  finally show ?case by simp
qed

lemma fold_addDex_rebuild:
  "keyed (acc @ m) \<Longrightarrow> fold addDex (map snd m) acc = acc @ m"
proof (induction m arbitrary: acc)
  case Nil
  show ?case by simp
next
  case (Cons p m)
  from Cons.prems have idp: "identityKey (snd p) = Some (fst p)"
    and fresh: "fst p \<notin> fst ` set acc"
    by (auto simp: keyed_def)
  have upd: "AList.update (fst p) (snd p) acc = acc @ [p]"
    using fresh by (induction acc) auto
  have "keyed ((acc @ [p]) @ m)" using Cons.prems by simp
  then have "fold addDex (map snd m) (acc @ [p]) = (acc @ [p]) @ m"
    by (rule Cons.IH)
  moreover have "addDex (snd p) acc = acc @ [p]"
    using idp upd by (simp add: addDex_conv)
  ultimately show ?case by simp
qed

text \<open>
  Claim C2 as stated (merging the result with the secondary list again changes nothing)
  fails: the second merge finds the record under its key and appends Jupiter to its
  sources once more.
\<close>

theorem C2_idempotent_counterexample:
  "mergeTokens (mergeTokens [exampleToken ''AbC'' 2 5 ''DexScreener''] [exampleToken ''abc'' 3 7 ''Jupiter''])
               [exampleToken ''abc'' 3 7 ''Jupiter'']
   \<noteq> mergeTokens [exampleToken ''AbC'' 2 5 ''DexScreener''] [exampleToken ''abc'' 3 7 ''Jupiter''] \<and>
   map sources
     (mergeTokens [exampleToken ''AbC'' 2 5 ''DexScreener''] [exampleToken ''abc'' 3 7 ''Jupiter''])
     = [Some [''DexScreener'', ''Jupiter'']] \<and>
   map sources
     (mergeTokens (mergeTokens [exampleToken ''AbC'' 2 5 ''DexScreener''] [exampleToken ''abc'' 3 7 ''Jupiter''])
               [exampleToken ''abc'' 3 7 ''Jupiter''])
     = [Some [''DexScreener'', ''Jupiter'', ''Jupiter'']]"
  by (simp add: mergeTokens_def addDex_def addJupiter_def mergeInto_def exampleToken_def identityKey_def
      toLowerCase_def lower_char_def)

text \<open>
  Claim C2, amended. Merging the result of a merge with the same secondary list again
  keeps the records, their order and every field other than \<open>sources\<close>: the two
  lists are equal once the sources are put aside.
\<close>

theorem C2_remerge:
  "map withoutSources (mergeTokens (mergeTokens dexTokens jupiterTokens) jupiterTokens) =
   map withoutSources (mergeTokens dexTokens jupiterTokens)"
proof -
  let ?m = "tokenMapOf dexTokens jupiterTokens"
  have rebuild: "fold addDex (map snd ?m) [] = ?m"
    using fold_addDex_rebuild [of "[]" ?m] keyed_tokenMapOf by simp
  have "\<forall>j \<in> set jupiterTokens. covers ?m j"
    by (simp add: tokenMapOf_def covers_fold_all)
  then have same: "map (\<lambda>(k, t). (k, withoutSources t)) (fold addJupiter jupiterTokens ?m) =
      map (\<lambda>(k, t). (k, withoutSources t)) ?m"
    by (rule covered_fold_same)
  have snd_map: "map withoutSources (map snd xs) = map snd (map (\<lambda>(k, t). (k, withoutSources t)) xs)"
    for xs :: tokenMap
    by (induction xs) auto
  have "mergeTokens (mergeTokens dexTokens jupiterTokens) jupiterTokens =
      map snd (fold addJupiter jupiterTokens ?m)"
    using rebuild by (simp add: mergeTokens_def tokenMapOf_def)
  then show ?thesis
    using same by (simp add: snd_map mergeTokens_def tokenMapOf_def del: map_map)
qed

text \<open>
  The amended claim C2 at one primary and one secondary record with the same key.
\<close>

theorem C2_remerge_witness:
  "map withoutSources
     (mergeTokens (mergeTokens [exampleToken ''AbC'' 2 5 ''DexScreener''] [exampleToken ''abc'' 3 7 ''Jupiter''])
               [exampleToken ''abc'' 3 7 ''Jupiter'']) =
   [withoutSources ((exampleToken ''AbC'' 2 5 ''DexScreener'')\<lparr>volume_sol := Fin 7\<rparr>)]"
  using C2_remerge [of "[exampleToken ''AbC'' 2 5 ''DexScreener'']" "[exampleToken ''abc'' 3 7 ''Jupiter'']"]
  by (simp add: mergeTokens_def addDex_def addJupiter_def mergeInto_def withoutSources_def exampleToken_def identityKey_def
      toLowerCase_def lower_char_def)

section \<open>Properties of the rounding\<close>

lemma round53_nonpos: "x \<le> 0 \<Longrightarrow> round53 x = 0"
  by (simp add: round53.simps [of x])

lemma roundHalfEven_ge_floor: "\<lfloor>m\<rfloor> \<le> roundHalfEven m"
  by (simp add: roundHalfEven_def Let_def)

lemma round53_pos: "0 < x \<Longrightarrow> 0 < round53 x"
proof (induction x rule: round53.induct)
  case (1 x)
  show ?case
  proof (cases "x < 2 ^ 52")
    case True
    with "1.prems" "1.IH"(1) have "0 < round53 (2 * x)" by simp
    with True "1.prems" show ?thesis by (simp add: round53.simps [of x])
  next
    case False
    show ?thesis
    proof (cases "2 ^ 53 \<le> x")
      case True
      with False "1.prems" "1.IH"(2) have "0 < round53 (x / 2)" by simp
      with True False "1.prems" show ?thesis by (simp add: round53.simps [of x])
    next
      case inrange: False
      have "(2::real) ^ 52 \<le> x" using False by simp
      then have "(2::int) ^ 52 \<le> \<lfloor>x\<rfloor>" by (simp add: le_floor_iff)
      moreover have "(0::int) < 2 ^ 52" by simp
      ultimately have "0 < roundHalfEven x" using roundHalfEven_ge_floor [of x] by linarith
      with inrange False "1.prems" show ?thesis by (simp add: round53.simps [of x])
    qed
  qed
qed

lemma round64_zero: "round64 0 = Fin 0"
  by (simp add: round64_def round53_nonpos overflowBound_def)

lemma round64_pos: "0 < x \<Longrightarrow> round64 x = PInf \<or> (\<exists>y. 0 < y \<and> round64 x = Fin y)"
  using round53_pos [of x] by (simp add: round64_def)

lemma round64_neg: "x < 0 \<Longrightarrow> round64 x = NInf \<or> (\<exists>y. y < 0 \<and> round64 x = Fin y)"
  using round53_pos [of "- x"] by (simp add: round64_def)

lemma Math_abs_round64: "Math_abs (round64 x) = round64 \<bar>x\<bar>"
proof (cases "0 \<le> x")
  case True
  then have "0 \<le> round53 x"
    using round53_pos [of x] round53_nonpos [of x] by (cases "x = 0") auto
  with True show ?thesis by (simp add: round64_def)
next
  case False
  then have "0 < round53 (- x)" using round53_pos [of "- x"] by simp
  with False show ?thesis by (simp add: round64_def)
qed

lemma js_gt_round64_zero: "js_gt (round64 x) (Fin 0) = (0 < x)"
proof -
  consider "x = 0" | "0 < x" | "x < 0" by linarith
  then show ?thesis
  proof cases
    case 1
    then show ?thesis by (simp add: round64_zero)
  next
    case 2
    with round64_pos [of x] show ?thesis by auto
  next
    case 3
    with round64_neg [of x] show ?thesis by auto
  qed
qed

lemma js_div_round64_zero:
  "js_div (round64 x) (Fin 0) = (if x = 0 then NaN else if 0 < x then PInf else NInf)"
proof -
  consider "x = 0" | "0 < x" | "x < 0" by linarith
  then show ?thesis
  proof cases
    case 1
    then show ?thesis by (simp add: round64_zero)
  next
    case 2
    with round64_pos [of x] show ?thesis by auto
  next
    case 3
    with round64_neg [of x] show ?thesis by auto
  qed
qed

text \<open>
  The rounding of a number whose exponent is given: how the examples are evaluated.
\<close>

lemma round53_scale_up:
  "2 ^ 52 \<le> x * 2 ^ k \<Longrightarrow> x * 2 ^ k < 2 ^ 53 \<Longrightarrow>
   round53 x = of_int (roundHalfEven (x * 2 ^ k)) / 2 ^ k"
proof (induction k arbitrary: x)
  case 0
  then show ?case by (simp add: round53.simps [of x])
next
  case (Suc k)
  have "(0::real) < 2 ^ 52" by simp
  then have "0 < x * 2 ^ Suc k" using Suc.prems(1) by (rule less_le_trans)
  then have pos: "0 < x" by (simp add: zero_less_mult_iff)
  have "(1::real) \<le> 2 ^ k" by simp
  then have "x * 2 \<le> x * (2 * 2 ^ k)" using pos by simp
  also have "\<dots> < 2 ^ 53" using Suc.prems(2) by simp
  finally have small: "x < 2 ^ 52" by simp
  have e: "x * 2 ^ Suc k = 2 * x * 2 ^ k" by simp
  have "round53 (2 * x) = of_int (roundHalfEven (2 * x * 2 ^ k)) / 2 ^ k"
    using Suc.prems unfolding e by (rule Suc.IH)
  moreover have "round53 x = round53 (2 * x) / 2"
    using pos small by (simp add: round53.simps [of x])
  ultimately show ?case
    unfolding e by simp
qed

lemma roundHalfEven_le: "roundHalfEven m \<le> \<lfloor>m\<rfloor> + 1"
  by (simp add: roundHalfEven_def Let_def)

lemma round64_eval:
  assumes lo: "2 ^ 52 \<le> x * 2 ^ k" and hi: "x * 2 ^ k < 2 ^ 53"
  shows "round64 x = Fin (of_int (roundHalfEven (x * 2 ^ k)) / 2 ^ k)"
proof -
  have "(0::real) < 2 ^ 52" by simp
  then have "0 < x * 2 ^ k" using lo by (rule less_le_trans)
  then have pos: "0 < x" by (simp add: zero_less_mult_iff)
  have r: "round53 x = of_int (roundHalfEven (x * 2 ^ k)) / 2 ^ k"
    using lo hi by (rule round53_scale_up)
  have "\<lfloor>x * 2 ^ k\<rfloor> < 2 ^ 53" using hi by (simp add: floor_less_iff)
  then have "roundHalfEven (x * 2 ^ k) \<le> 2 ^ 53"
    using roundHalfEven_le [of "x * 2 ^ k"] by linarith
  then have "(of_int (roundHalfEven (x * 2 ^ k)) :: real) \<le> of_int (2 ^ 53)"
    by (simp only: of_int_le_iff)
  then have "(of_int (roundHalfEven (x * 2 ^ k)) :: real) \<le> 2 ^ 53" by simp
  also have "(2::real) ^ 53 = 2 ^ 53 * 1" by simp
  also have "\<dots> \<le> 2 ^ 53 * 2 ^ k" by (rule mult_left_mono) simp_all
  finally have "(of_int (roundHalfEven (x * 2 ^ k)) :: real) / 2 ^ k \<le> 2 ^ 53"
    by (simp add: pos_divide_le_eq)
  moreover have "(2::real) ^ 53 < 2 ^ 1024" by (rule power_strict_increasing) simp_all
  ultimately have "round53 x < overflowBound" by (simp add: r overflowBound_def)
  with pos r show ?thesis by (simp add: round64_def)
qed

text \<open>The percentages of the examples, every operation rounded.\<close>

lemma percent_105_100:
  "specPriceDelta (Fin 105) (Fin 100) =
     Fin 5"
proof -
  have s: "js_sub (Fin 105) (Fin 100) = Fin 5"
    using round64_eval [of "105 - 100" 50] by (simp add: roundHalfEven_def Let_def)
  have q: "js_div (Fin 5) (Fin 100) = Fin (3602879701896397 / 72057594037927936)"
    using round64_eval [of "5 / 100" 57] by (simp add: roundHalfEven_def Let_def)
  have m: "js_mul (Fin (3602879701896397 / 72057594037927936)) (Fin 100) = Fin 5"
    using round64_eval [of "(3602879701896397 / 72057594037927936) * 100" 50] by (simp add: roundHalfEven_def Let_def)
  show ?thesis
    by (simp add: specPriceDelta_def s q m del: js_sub.simps js_div.simps js_mul.simps)
qed

lemma percent_150_100:
  "specVolumeDelta (Fin 150) (Fin 100) =
     Fin 50"
proof -
  have s: "js_sub (Fin 150) (Fin 100) = Fin 50"
    using round64_eval [of "150 - 100" 47] by (simp add: roundHalfEven_def Let_def)
  have q: "js_div (Fin 50) (Fin 100) = Fin (1 / 2)"
    using round64_eval [of "50 / 100" 53] by (simp add: roundHalfEven_def Let_def)
  have m: "js_mul (Fin (1 / 2)) (Fin 100) = Fin 50"
    using round64_eval [of "(1 / 2) * 100" 47] by (simp add: roundHalfEven_def Let_def)
  show ?thesis
    by (simp add: specVolumeDelta_def s q m del: js_sub.simps js_div.simps js_mul.simps)
qed

lemma percent_105_01_100:
  "specPriceDelta (Fin (7389421826096497 / 70368744177664)) (Fin 100) =
     Fin (352547408330097 / 70368744177664)"
proof -
  have s: "js_sub (Fin (7389421826096497 / 70368744177664)) (Fin 100) = Fin (352547408330097 / 70368744177664)"
    using round64_eval [of "(7389421826096497 / 70368744177664) - 100" 50] by (simp add: roundHalfEven_def Let_def)
  have q: "js_div (Fin (352547408330097 / 70368744177664)) (Fin 100) = Fin (7220170922600387 / 144115188075855872)"
    using round64_eval [of "(352547408330097 / 70368744177664) / 100" 57] by (simp add: roundHalfEven_def Let_def)
  have m: "js_mul (Fin (7220170922600387 / 144115188075855872)) (Fin 100) = Fin (352547408330097 / 70368744177664)"
    using round64_eval [of "(7220170922600387 / 144115188075855872) * 100" 50] by (simp add: roundHalfEven_def Let_def)
  show ?thesis
    by (simp add: specPriceDelta_def s q m del: js_sub.simps js_div.simps js_mul.simps)
qed

lemma percent_150_01_100:
  "specVolumeDelta (Fin (659750957130711 / 4398046511104)) (Fin 100) =
     Fin (219946306020311 / 4398046511104)"
proof -
  have s: "js_sub (Fin (659750957130711 / 4398046511104)) (Fin 100) = Fin (219946306020311 / 4398046511104)"
    using round64_eval [of "(659750957130711 / 4398046511104) - 100" 47] by (simp add: roundHalfEven_def Let_def)
  have q: "js_div (Fin (219946306020311 / 4398046511104)) (Fin 100) = Fin (4504500347295969 / 9007199254740992)"
    using round64_eval [of "(219946306020311 / 4398046511104) / 100" 53] by (simp add: roundHalfEven_def Let_def)
  have m: "js_mul (Fin (4504500347295969 / 9007199254740992)) (Fin 100) = Fin (219946306020311 / 4398046511104)"
    using round64_eval [of "(4504500347295969 / 9007199254740992) * 100" 47] by (simp add: roundHalfEven_def Let_def)
  show ?thesis
    by (simp add: specVolumeDelta_def s q m del: js_sub.simps js_div.simps js_mul.simps)
qed

lemma percent_boundary:
  "Math_abs (js_mul (js_div (js_sub (Fin 9457559217478028) (Fin 9007199254740979)) (Fin 9007199254740979)) (Fin 100)) =
     Fin 5"
proof -
  have s: "js_sub (Fin 9457559217478028) (Fin 9007199254740979) = Fin 450359962737049"
    using round64_eval [of "9457559217478028 - 9007199254740979" 4] by (simp add: roundHalfEven_def Let_def)
  have q: "js_div (Fin 450359962737049) (Fin 9007199254740979) = Fin (3602879701896397 / 72057594037927936)"
    using round64_eval [of "450359962737049 / 9007199254740979" 57] by (simp add: roundHalfEven_def Let_def)
  have m: "js_mul (Fin (3602879701896397 / 72057594037927936)) (Fin 100) = Fin 5"
    using round64_eval [of "(3602879701896397 / 72057594037927936) * 100" 50] by (simp add: roundHalfEven_def Let_def)
  show ?thesis
    by (simp add: s q m del: js_sub.simps js_div.simps js_mul.simps)
qed

section \<open>Properties of the change detection\<close>

lemma priceChanges_detectToken:
  "priceChanges (detectToken t d) =
     priceChanges d @
       (case previousTokens d (token_address t) of
          None \<Rightarrow> []
        | Some p \<Rightarrow> if js_gt (priceChangePercent t p) (Fin 5) then [t] else [])"
  by (simp add: detectToken_def Let_def split: option.splits)

lemma volumeSpikes_detectToken:
  "volumeSpikes (detectToken t d) =
     volumeSpikes d @
       (case previousTokens d (token_address t) of
          None \<Rightarrow> []
        | Some p \<Rightarrow> if js_gt (volumeIncrease t p) (Fin 50) then [t] else [])"
  by (simp add: detectToken_def Let_def split: option.splits)

lemma previousTokens_detectToken:
  "previousTokens (detectToken t d) = (previousTokens d)(token_address t \<mapsto> t)"
  by (simp add: detectToken_def Let_def split: option.splits)

lemma priceChanges_fold:
  "distinct (map token_address ts) \<Longrightarrow>
   (\<And>t. t \<in> set ts \<Longrightarrow> previousTokens d (token_address t) = prev (token_address t)) \<Longrightarrow>
   priceChanges (fold detectToken ts d) = priceChanges d @ filter (priceFlag prev) ts"
proof (induction ts arbitrary: d)
  case Nil
  show ?case by simp
next
  case (Cons a ts)
  have same: "previousTokens (detectToken a d) (token_address t) = prev (token_address t)"
    if "t \<in> set ts" for t
  proof -
    have "token_address a \<notin> token_address ` set ts"
      using Cons.prems(1) by simp
    moreover have "token_address t \<in> token_address ` set ts"
      using that by (rule imageI)
    ultimately have "token_address t \<noteq> token_address a" by metis
    then show ?thesis
      using Cons.prems(2) [of t] that by (simp add: previousTokens_detectToken)
  qed
  have "priceChanges (fold detectToken ts (detectToken a d)) =
      priceChanges (detectToken a d) @ filter (priceFlag prev) ts"
    using Cons.prems(1) same by (intro Cons.IH) simp_all
  moreover have "(case previousTokens d (token_address a) of
                   None \<Rightarrow> []
                 | Some p \<Rightarrow> if js_gt (priceChangePercent a p) (Fin 5) then [a] else []) =
      (if priceFlag prev a then [a] else [])"
    using Cons.prems(2) [of a] by (simp add: priceFlag_def split: option.splits)
  ultimately show ?case
    by (simp add: priceChanges_detectToken)
qed

lemma volumeSpikes_fold:
  "distinct (map token_address ts) \<Longrightarrow>
   (\<And>t. t \<in> set ts \<Longrightarrow> previousTokens d (token_address t) = prev (token_address t)) \<Longrightarrow>
   volumeSpikes (fold detectToken ts d) = volumeSpikes d @ filter (volumeFlag prev) ts"
proof (induction ts arbitrary: d)
  case Nil
  show ?case by simp
next
  case (Cons a ts)
  have same: "previousTokens (detectToken a d) (token_address t) = prev (token_address t)"
    if "t \<in> set ts" for t
  proof -
    have "token_address a \<notin> token_address ` set ts"
      using Cons.prems(1) by simp
    moreover have "token_address t \<in> token_address ` set ts"
      using that by (rule imageI)
    ultimately have "token_address t \<noteq> token_address a" by metis
    then show ?thesis
      using Cons.prems(2) [of t] that by (simp add: previousTokens_detectToken)
  qed
  have "volumeSpikes (fold detectToken ts (detectToken a d)) =
      volumeSpikes (detectToken a d) @ filter (volumeFlag prev) ts"
    using Cons.prems(1) same by (intro Cons.IH) simp_all
  moreover have "(case previousTokens d (token_address a) of
                   None \<Rightarrow> []
                 | Some p \<Rightarrow> if js_gt (volumeIncrease a p) (Fin 50) then [a] else []) =
      (if volumeFlag prev a then [a] else [])"
    using Cons.prems(2) [of a] by (simp add: volumeFlag_def split: option.splits)
  ultimately show ?case
    by (simp add: volumeSpikes_detectToken)
qed

lemma priceChanges_detectChanges:
  "distinct (map token_address ts) \<Longrightarrow>
   priceChanges (detectChanges ts prev) = filter (priceFlag prev) ts"
  using priceChanges_fold [of ts "\<lparr>priceChanges = [], volumeSpikes = [], previousTokens = prev\<rparr>" prev]
  by (simp add: detectChanges_def)

lemma volumeSpikes_detectChanges:
  "distinct (map token_address ts) \<Longrightarrow>
   volumeSpikes (detectChanges ts prev) = filter (volumeFlag prev) ts"
  using volumeSpikes_fold [of ts "\<lparr>priceChanges = [], volumeSpikes = [], previousTokens = prev\<rparr>" prev]
  by (simp add: detectChanges_def)

text \<open>
  The percentage of the code and the percentage of the specification are the same number
  unless the baseline is negative: rounding commutes with the absolute value.
\<close>

lemma Math_abs_js_div:
  assumes nonneg: "\<not> js_gt (Fin 0) p"
  shows "Math_abs (js_div a p) = js_div (Math_abs a) p"
proof (cases a)
  case (Fin x)
  show ?thesis
  proof (cases p)
    case p: (Fin y)
    with nonneg have y: "0 \<le> y" by simp
    show ?thesis
    proof (cases "y = 0")
      case True
      with Fin p show ?thesis by simp
    next
      case False
      from y have "\<bar>x / y\<bar> = \<bar>x\<bar> / y" by (simp add: abs_divide)
      with False Fin p show ?thesis by (simp add: Math_abs_round64 del: abs_divide)
    qed
  qed (simp_all add: Fin)
next
  case PInf
  with nonneg show ?thesis by (cases p) auto
next
  case NInf
  with nonneg show ?thesis by (cases p) auto
next
  case NaN
  then show ?thesis by simp
qed

lemma Math_abs_js_mul_100: "Math_abs (js_mul a (Fin 100)) = js_mul (Math_abs a) (Fin 100)"
  by (cases a) (simp_all add: Math_abs_round64 abs_mult)

lemma price_percent_spec:
  "\<not> js_gt (Fin 0) p \<Longrightarrow>
   Math_abs (js_mul (js_div (js_sub c p) p) (Fin 100)) = specPriceDelta c p"
  by (simp add: specPriceDelta_def Math_abs_js_mul_100 Math_abs_js_div)

text \<open>
  Claim C3 as stated (a record is flagged exactly when the percentage of its price change
  is greater than 5) fails when the percentage is the exact one: from the price
  9007199254740979 to the price 9457559217478028, both binary64 numbers, the change is
  more than 5 percent, but the quotient and the product are rounded, the percentage that
  the code computes is 5, and the record is not flagged.
\<close>

theorem C3_rounding_counterexample:
  "5 < exactPriceDelta 9457559217478028 9007199254740979 \<and>
   exampleToken ''a'' 9457559217478028 1 ''DexScreener'' \<notin> set (priceChanges (detectChanges
       [exampleToken ''a'' 9457559217478028 1 ''DexScreener'']
       [Some ''a'' \<mapsto> exampleToken ''a'' 9007199254740979 1 ''DexScreener'']))"
  by (simp add: exactPriceDelta_def detectChanges_def priceChanges_detectToken
      priceChangePercent_def exampleToken_def percent_boundary
      del: js_sub.simps js_div.simps js_mul.simps)

text \<open>
  Claim C3, amended (strict thresholds on the computed percentage). Let the addresses of
  the current tokens be pairwise distinct, as in a merged snapshot, and let \<open>t\<close> be
  one of them. If the retained state has no record under the address of \<open>t\<close>, then
  \<open>t\<close> is in neither result. If it has the record \<open>p\<close>, then \<open>t\<close> is a
  volume spike exactly when (current - previous) / previous * 100, each operation rounded
  as binary64 rounds it, is greater than 50, and, the previous price not being negative,
  \<open>t\<close> is a price change exactly when |current - previous| / previous * 100, each
  operation rounded, is greater than 5.
\<close>

theorem C3_thresholds:
  assumes dist: "distinct (map token_address currentTokens)"
    and cur: "t \<in> set currentTokens"
  shows "(previous (token_address t) = None \<longrightarrow>
            t \<notin> set (priceChanges (detectChanges currentTokens previous)) \<and>
            t \<notin> set (volumeSpikes (detectChanges currentTokens previous))) \<and>
         (\<forall>p. previous (token_address t) = Some p \<longrightarrow>
            (t \<in> set (volumeSpikes (detectChanges currentTokens previous)) \<longleftrightarrow>
               js_gt (specVolumeDelta (volume_sol t) (volume_sol p)) (Fin 50)) \<and>
            (\<not> js_gt (Fin 0) (price_sol p) \<longrightarrow>
               (t \<in> set (priceChanges (detectChanges currentTokens previous)) \<longleftrightarrow>
                  js_gt (specPriceDelta (price_sol t) (price_sol p)) (Fin 5))))"
proof -
  have pc: "t \<in> set (priceChanges (detectChanges currentTokens previous)) \<longleftrightarrow> priceFlag previous t"
    using cur by (simp add: priceChanges_detectChanges [OF dist])
  have vs: "t \<in> set (volumeSpikes (detectChanges currentTokens previous)) \<longleftrightarrow> volumeFlag previous t"
    using cur by (simp add: volumeSpikes_detectChanges [OF dist])
  show ?thesis
    unfolding pc vs
    by (simp add: priceFlag_def volumeFlag_def priceChangePercent_def volumeIncrease_def
        specVolumeDelta_def price_percent_spec)
qed

text \<open>
  From the price 100 and the volume 100: the price 105 and the volume 150 are not
  flagged (the computed percentages are 5 and 50); the binary64 numbers nearest to
  105.01 and to 150.01 are flagged.
\<close>

theorem C3_thresholds_witness:
  "exampleToken ''a'' 105 150 ''DexScreener'' \<notin> set (priceChanges (detectChanges
       [exampleToken ''a'' 105 150 ''DexScreener'',
        exampleToken ''b'' (7389421826096497 / 70368744177664) (659750957130711 / 4398046511104) ''DexScreener'']
       [Some ''a'' \<mapsto> exampleToken ''a'' 100 100 ''DexScreener'',
        Some ''b'' \<mapsto> exampleToken ''b'' 100 100 ''DexScreener''])) \<and>
   exampleToken ''a'' 105 150 ''DexScreener'' \<notin> set (volumeSpikes (detectChanges
       [exampleToken ''a'' 105 150 ''DexScreener'',
        exampleToken ''b'' (7389421826096497 / 70368744177664) (659750957130711 / 4398046511104) ''DexScreener'']
       [Some ''a'' \<mapsto> exampleToken ''a'' 100 100 ''DexScreener'',
        Some ''b'' \<mapsto> exampleToken ''b'' 100 100 ''DexScreener''])) \<and>
   exampleToken ''b'' (7389421826096497 / 70368744177664) (659750957130711 / 4398046511104) ''DexScreener'' \<in> set (priceChanges (detectChanges
       [exampleToken ''a'' 105 150 ''DexScreener'',
        exampleToken ''b'' (7389421826096497 / 70368744177664) (659750957130711 / 4398046511104) ''DexScreener'']
       [Some ''a'' \<mapsto> exampleToken ''a'' 100 100 ''DexScreener'',
        Some ''b'' \<mapsto> exampleToken ''b'' 100 100 ''DexScreener''])) \<and>
   exampleToken ''b'' (7389421826096497 / 70368744177664) (659750957130711 / 4398046511104) ''DexScreener'' \<in> set (volumeSpikes (detectChanges
       [exampleToken ''a'' 105 150 ''DexScreener'',
        exampleToken ''b'' (7389421826096497 / 70368744177664) (659750957130711 / 4398046511104) ''DexScreener'']
       [Some ''a'' \<mapsto> exampleToken ''a'' 100 100 ''DexScreener'',
        Some ''b'' \<mapsto> exampleToken ''b'' 100 100 ''DexScreener'']))"
  using percent_105_100 percent_150_100 percent_105_01_100 percent_150_01_100
    C3_thresholds [of
       "[exampleToken ''a'' 105 150 ''DexScreener'',
        exampleToken ''b'' (7389421826096497 / 70368744177664) (659750957130711 / 4398046511104) ''DexScreener'']"
       "exampleToken ''a'' 105 150 ''DexScreener''"
       "[Some ''a'' \<mapsto> exampleToken ''a'' 100 100 ''DexScreener'',
        Some ''b'' \<mapsto> exampleToken ''b'' 100 100 ''DexScreener'']"]
    C3_thresholds [of
       "[exampleToken ''a'' 105 150 ''DexScreener'',
        exampleToken ''b'' (7389421826096497 / 70368744177664) (659750957130711 / 4398046511104) ''DexScreener'']"
       "exampleToken ''b'' (7389421826096497 / 70368744177664) (659750957130711 / 4398046511104) ''DexScreener''"
       "[Some ''a'' \<mapsto> exampleToken ''a'' 100 100 ''DexScreener'',
        Some ''b'' \<mapsto> exampleToken ''b'' 100 100 ''DexScreener'']"]
  by (simp add: exampleToken_def)

subsection \<open>A baseline of zero\<close>

lemma zero_price_flag:
  "js_gt (Math_abs (js_mul (js_div (js_sub c (Fin 0)) (Fin 0)) (Fin 100))) (Fin 5) =
     (c \<noteq> Fin 0 \<and> c \<noteq> NaN)"
  by (cases c) (auto simp: js_div_round64_zero)

lemma zero_volume_flag:
  "js_gt (js_mul (js_div (js_sub c (Fin 0)) (Fin 0)) (Fin 100)) (Fin 50) = js_gt c (Fin 0)"
  by (cases c) (auto simp: js_div_round64_zero)

text \<open>
  Claim C4 as stated (a record whose baseline is zero is never flagged) fails: from the
  price 0 to the price 1 and from the volume 0 to the volume 2 the quotient is the
  positive infinity, which is greater than the threshold, and the record is in both
  results.
\<close>

theorem C4_zero_baseline_counterexample:
  "price_sol (exampleToken ''a'' 0 0 ''DexScreener'') = Fin 0 \<and>
   volume_sol (exampleToken ''a'' 0 0 ''DexScreener'') = Fin 0 \<and>
   priceChanges (detectChanges [exampleToken ''a'' 1 2 ''DexScreener'']
       [Some ''a'' \<mapsto> exampleToken ''a'' 0 0 ''DexScreener'']) = [exampleToken ''a'' 1 2 ''DexScreener''] \<and>
   volumeSpikes (detectChanges [exampleToken ''a'' 1 2 ''DexScreener'']
       [Some ''a'' \<mapsto> exampleToken ''a'' 0 0 ''DexScreener'']) = [exampleToken ''a'' 1 2 ''DexScreener'']"
  by (simp add: detectChanges_def detectToken_def priceChangePercent_def volumeIncrease_def
      exampleToken_def js_div_round64_zero)

text \<open>
  Claim C4, amended. Let the addresses of the current tokens be pairwise distinct and
  \<open>p\<close> be the retained record of the current token \<open>t\<close>. No branch of
  \<open>detectChanges\<close> fails: a division by zero is an infinity or NaN. When the previous
  price is 0, \<open>t\<close> is a price change exactly when its price is neither 0 nor NaN;
  when the previous volume is 0, \<open>t\<close> is a volume spike exactly when its volume is
  greater than 0. Only a current value that is 0 as well (the quotient is NaN) is never
  flagged.
\<close>

theorem C4_zero_baseline:
  assumes dist: "distinct (map token_address currentTokens)"
    and cur: "t \<in> set currentTokens"
    and base: "previous (token_address t) = Some p"
  shows "(price_sol p = Fin 0 \<longrightarrow>
            (t \<in> set (priceChanges (detectChanges currentTokens previous)) \<longleftrightarrow>
               price_sol t \<noteq> Fin 0 \<and> price_sol t \<noteq> NaN)) \<and>
         (volume_sol p = Fin 0 \<longrightarrow>
            (t \<in> set (volumeSpikes (detectChanges currentTokens previous)) \<longleftrightarrow>
               js_gt (volume_sol t) (Fin 0)))"
proof -
  have pc: "t \<in> set (priceChanges (detectChanges currentTokens previous)) \<longleftrightarrow> priceFlag previous t"
    using cur by (simp add: priceChanges_detectChanges [OF dist])
  have vs: "t \<in> set (volumeSpikes (detectChanges currentTokens previous)) \<longleftrightarrow> volumeFlag previous t"
    using cur by (simp add: volumeSpikes_detectChanges [OF dist])
  show ?thesis
    unfolding pc vs using base
    by (simp add: priceFlag_def volumeFlag_def priceChangePercent_def volumeIncrease_def
        zero_price_flag zero_volume_flag)
qed

text \<open>
  The amended claim C4 at a record whose price and volume stay 0: it is not flagged.
\<close>

theorem C4_zero_baseline_witness:
  "exampleToken ''a'' 0 0 ''DexScreener'' \<notin> set (priceChanges (detectChanges
       [exampleToken ''a'' 0 0 ''DexScreener'']
       [Some ''a'' \<mapsto> exampleToken ''a'' 0 0 ''DexScreener''])) \<and>
   exampleToken ''a'' 0 0 ''DexScreener'' \<notin> set (volumeSpikes (detectChanges
       [exampleToken ''a'' 0 0 ''DexScreener'']
       [Some ''a'' \<mapsto> exampleToken ''a'' 0 0 ''DexScreener'']))"
  using C4_zero_baseline [of "[exampleToken ''a'' 0 0 ''DexScreener'']"
      "exampleToken ''a'' 0 0 ''DexScreener''"
      "[Some ''a'' \<mapsto> exampleToken ''a'' 0 0 ''DexScreener'']"
      "exampleToken ''a'' 0 0 ''DexScreener''"]
  by (simp add: exampleToken_def)

subsection \<open>The retained state\<close>

lemma previousTokens_fold:
  "previousTokens (fold detectToken ts d) = previousTokens d ++ snapshotMap ts"
proof (induction ts arbitrary: d)
  case Nil
  show ?case by (simp add: snapshotMap_def)
next
  case (Cons a ts)
  have "snapshotMap (a # ts) = [token_address a \<mapsto> a] ++ snapshotMap ts"
    by (simp add: snapshotMap_def map_of_append)
  moreover have "(previousTokens d)(token_address a \<mapsto> a) =
      previousTokens d ++ [token_address a \<mapsto> a]"
    by simp
  moreover have "previousTokens (fold detectToken (a # ts) d) =
      (previousTokens d)(token_address a \<mapsto> a) ++ snapshotMap ts"
    by (simp only: fold_simps Cons.IH previousTokens_detectToken)
  ultimately show ?case
    by (simp only: map_add_assoc)
qed

lemma snapshotMap_dom: "dom (snapshotMap ts) = token_address ` set ts"
  by (simp add: snapshotMap_def dom_map_of_conv_image_fst image_image)

lemma snapshotMap_distinct:
  "distinct (map token_address ts) \<Longrightarrow> t \<in> set ts \<Longrightarrow> snapshotMap ts (token_address t) = Some t"
proof -
  assume d: "distinct (map token_address ts)" and t: "t \<in> set ts"
  have "distinct (map fst (rev (map (\<lambda>t. (token_address t, t)) ts)))"
    using d by (simp add: rev_map [symmetric] comp_def)
  moreover have "(token_address t, t) \<in> set (rev (map (\<lambda>t. (token_address t, t)) ts))"
    using t by auto
  ultimately show ?thesis
    unfolding snapshotMap_def by (rule map_of_is_SomeI)
qed

text \<open>
  Claim C5 as stated (no record is retained for an address that is absent from the
  current tokens) fails: after a call with a token of the address a and a call with a
  token of the address b, the record of a is still retained.
\<close>

theorem C5_state_counterexample:
  "Some ''a'' \<notin> token_address ` set [exampleToken ''b'' 1 1 ''DexScreener''] \<and>
   previousTokens (detectChanges [exampleToken ''b'' 1 1 ''DexScreener'']
      (previousTokens (detectChanges [exampleToken ''a'' 1 1 ''DexScreener''] Map.empty)))
     (Some ''a'') = Some (exampleToken ''a'' 1 1 ''DexScreener'')"
  by (simp add: detectChanges_def detectToken_def exampleToken_def)

text \<open>
  Claim C5, amended. After \<open>detectChanges\<close> the retained state is the state before
  the call overwritten with the current tokens: every address of a current token holds
  the last current token that has it (the token itself when the addresses are pairwise
  distinct), flagged or not, and every other address keeps the record it had.
\<close>

theorem C5_retained:
  "previousTokens (detectChanges currentTokens previous) = previous ++ snapshotMap currentTokens \<and>
   dom (previousTokens (detectChanges currentTokens previous)) =
     dom previous \<union> token_address ` set currentTokens \<and>
   (a \<notin> token_address ` set currentTokens \<longrightarrow>
      previousTokens (detectChanges currentTokens previous) a = previous a) \<and>
   (distinct (map token_address currentTokens) \<and> t \<in> set currentTokens \<longrightarrow>
      previousTokens (detectChanges currentTokens previous) (token_address t) = Some t)"
proof -
  have eq: "previousTokens (detectChanges currentTokens previous) =
      previous ++ snapshotMap currentTokens"
    by (simp add: detectChanges_def previousTokens_fold)
  have 1: "dom (previous ++ snapshotMap currentTokens) =
      dom previous \<union> token_address ` set currentTokens"
    by (auto simp: snapshotMap_dom)
  have "snapshotMap currentTokens a = None" if "a \<notin> token_address ` set currentTokens"
    using that snapshotMap_dom [of currentTokens] by blast
  then have 2: "a \<notin> token_address ` set currentTokens \<longrightarrow>
      (previous ++ snapshotMap currentTokens) a = previous a"
    by (simp add: map_add_def)
  have 3: "distinct (map token_address currentTokens) \<and> t \<in> set currentTokens \<longrightarrow>
      (previous ++ snapshotMap currentTokens) (token_address t) = Some t"
    by (simp add: map_add_def snapshotMap_distinct)
  from 1 2 3 show ?thesis
    unfolding eq by simp
qed

text \<open>
  The amended claim C5 at a state with the addresses a and b and one current token of
  the address b.
\<close>

theorem C5_retained_witness:
  "previousTokens (detectChanges [exampleToken ''b'' 2 2 ''DexScreener'']
      [Some ''a'' \<mapsto> exampleToken ''a'' 1 1 ''DexScreener'',
       Some ''b'' \<mapsto> exampleToken ''b'' 1 1 ''DexScreener'']) (Some ''b'')
     = Some (exampleToken ''b'' 2 2 ''DexScreener'') \<and>
   previousTokens (detectChanges [exampleToken ''b'' 2 2 ''DexScreener'']
      [Some ''a'' \<mapsto> exampleToken ''a'' 1 1 ''DexScreener'',
       Some ''b'' \<mapsto> exampleToken ''b'' 1 1 ''DexScreener'']) (Some ''a'')
     = Some (exampleToken ''a'' 1 1 ''DexScreener'')"
  using C5_retained [of "[exampleToken ''b'' 2 2 ''DexScreener'']"
      "[Some ''a'' \<mapsto> exampleToken ''a'' 1 1 ''DexScreener'',
       Some ''b'' \<mapsto> exampleToken ''b'' 1 1 ''DexScreener'']" "Some ''a''"
      "exampleToken ''b'' 2 2 ''DexScreener''"]
  by (simp add: exampleToken_def snapshotMap_def map_add_def)

section \<open>Properties of the retry policy\<close>

lemma retry_failure_step:
  assumes "fn (world p) = (Inl error, w)" and "isRetryableError error"
  shows "retryWithBackoff fn (Suc n) p =
     retryWithBackoff fn n
       (p\<lparr>retryCount := retryCount p + 1, slept := slept p @ [backoffDelay (retryCount p)],
          world := w\<rparr>)"
  using assms by (simp add: retryWithBackoff.simps [of fn "Suc n"] Let_def)

lemma retry_failure_last:
  assumes "fn (world p) = (Inl error, w)"
  shows "retryWithBackoff fn 0 p = (Inl error, p\<lparr>world := w\<rparr>)"
  using assms by (simp add: retryWithBackoff.simps [of fn 0])

lemma retry_four_failures:
  assumes f1: "fn w0 = (Inl e1, w1)" and r1: "isRetryableError e1"
    and f2: "fn w1 = (Inl e2, w2)" and r2: "isRetryableError e2"
    and f3: "fn w2 = (Inl e3, w3)" and r3: "isRetryableError e3"
    and f4: "fn w3 = (Inl e4, w4)"
    and p0: "world p = w0"
  shows "retryWithBackoff fn maxRetries p =
       (Inl e4,
        p\<lparr>retryCount := retryCount p + 3,
           slept := slept p @ [backoffDelay (retryCount p), backoffDelay (retryCount p + 1),
                               backoffDelay (retryCount p + 2)],
           world := w4\<rparr>)"
proof -
  let ?p1 = "p\<lparr>retryCount := retryCount p + 1,
               slept := slept p @ [backoffDelay (retryCount p)], world := w1\<rparr>"
  let ?p2 = "?p1\<lparr>retryCount := retryCount ?p1 + 1,
               slept := slept ?p1 @ [backoffDelay (retryCount ?p1)], world := w2\<rparr>"
  let ?p3 = "?p2\<lparr>retryCount := retryCount ?p2 + 1,
               slept := slept ?p2 @ [backoffDelay (retryCount ?p2)], world := w3\<rparr>"
  have s1: "retryWithBackoff fn (Suc (Suc (Suc 0))) p = retryWithBackoff fn (Suc (Suc 0)) ?p1"
    using f1 r1 p0 by (intro retry_failure_step) simp_all
  have s2: "retryWithBackoff fn (Suc (Suc 0)) ?p1 = retryWithBackoff fn (Suc 0) ?p2"
    using f2 r2 by (intro retry_failure_step) simp_all
  have s3: "retryWithBackoff fn (Suc 0) ?p2 = retryWithBackoff fn 0 ?p3"
    using f3 r3 by (intro retry_failure_step) simp_all
  have s4: "retryWithBackoff fn 0 ?p3 = (Inl e4, ?p3\<lparr>world := w4\<rparr>)"
    using f4 by (intro retry_failure_last) simp
  have m: "maxRetries = Suc (Suc (Suc 0))" by (simp add: maxRetries_def)
  show ?thesis
    unfolding m s1 s2 s3 s4 by simp
qed

lemma backoffDelay_values:
  "backoffDelay 0 = 1000 \<and> backoffDelay 1 = 2000 \<and> backoffDelay 2 = 4000 \<and>
   backoffDelay 3 = 8000 \<and> (\<forall>n\<ge>4. backoffDelay n = 10000)"
proof -
  have "backoffDelay n = 10000" if "4 \<le> n" for n
  proof -
    have "(2::nat) ^ 4 \<le> 2 ^ n" using that by (intro power_increasing) simp_all
    then have "(10000::nat) \<le> 1000 * 2 ^ n" by simp
    then show ?thesis by (simp add: backoffDelay_def baseDelay_def maxDelay_def)
  qed
  then show ?thesis by (simp add: backoffDelay_def baseDelay_def maxDelay_def)
qed

text \<open>
  Claim C6 as stated (four consecutive retryable failures of a call are followed by the
  delays 1000, 2000, 4000 and 8000) fails: with three retries the call makes four
  requests and sleeps three times, and the fourth failure is rejected without a sleep.
\<close>

theorem C6_backoff_counterexample:
  "isRetryableError serverError \<and>
   retryWithBackoff scripted maxRetries
     (freshProvider [Inl serverError, Inl serverError, Inl serverError, Inl serverError :: HttpError + unit])
    = (Inl serverError, \<lparr>retryCount = 3, slept = [1000, 2000, 4000], world = []\<rparr>) \<and>
   slept (snd (retryWithBackoff scripted maxRetries
     (freshProvider [Inl serverError, Inl serverError, Inl serverError, Inl serverError :: HttpError + unit])))
    \<noteq> [1000, 2000, 4000, 8000]"
  using retry_four_failures [of scripted
      "[Inl serverError, Inl serverError, Inl serverError, Inl serverError :: HttpError + unit]"
      serverError "[Inl serverError, Inl serverError, Inl serverError]"
      serverError "[Inl serverError, Inl serverError]"
      serverError "[Inl serverError]" serverError "[]"
      "freshProvider [Inl serverError, Inl serverError, Inl serverError, Inl serverError]"]
  by (simp add: freshProvider_def serverError_def isRetryableError_def backoffDelay_def
      baseDelay_def maxDelay_def)

text \<open>
  Claim C6, amended. Let four consecutive requests of a call fail, the first three with
  a retryable error. Then the call sleeps three times, for the delays
  \<open>min (1000 * 2 ^ n) 10000\<close> of the retry counts \<open>c\<close>, \<open>c + 1\<close> and
  \<open>c + 2\<close>, where \<open>c\<close> is the retry count of the provider at the start (1000,
  2000 and 4000 from the count 0), \<open>retryWithBackoff\<close> rejects with the fourth error
  and leaves the count at \<open>c + 3\<close>, and the search returns the empty list: no error
  passes the provider.
\<close>

theorem C6_backoff:
  assumes f1: "fn w0 = (Inl e1, w1)" and r1: "isRetryableError e1"
    and f2: "fn w1 = (Inl e2, w2)" and r2: "isRetryableError e2"
    and f3: "fn w2 = (Inl e3, w3)" and r3: "isRetryableError e3"
    and f4: "fn w3 = (Inl e4, w4)"
    and p0: "world p = w0"
  shows "retryWithBackoff fn maxRetries p =
       (Inl e4,
        p\<lparr>retryCount := retryCount p + 3,
           slept := slept p @ [backoffDelay (retryCount p), backoffDelay (retryCount p + 1),
                               backoffDelay (retryCount p + 2)],
           world := w4\<rparr>) \<and>
     fst (searchTokens fn onResponse p) = [] \<and>
     (retryCount p = 0 \<longrightarrow>
        slept (snd (retryWithBackoff fn maxRetries p)) = slept p @ [1000, 2000, 4000]) \<and>
     backoffDelay n = min (1000 * 2 ^ n) 10000"
proof -
  have run: "retryWithBackoff fn maxRetries p =
       (Inl e4,
        p\<lparr>retryCount := retryCount p + 3,
           slept := slept p @ [backoffDelay (retryCount p), backoffDelay (retryCount p + 1),
                               backoffDelay (retryCount p + 2)],
           world := w4\<rparr>)"
    using assms by (rule retry_four_failures)
  have empty: "fst (searchTokens fn onResponse p) = []"
    by (simp add: searchTokens_def run)
  have delays: "retryCount p = 0 \<longrightarrow>
        slept (snd (retryWithBackoff fn maxRetries p)) = slept p @ [1000, 2000, 4000]"
    by (simp add: run backoffDelay_def baseDelay_def maxDelay_def)
  have formula: "backoffDelay n = min (1000 * 2 ^ n) 10000"
    by (simp add: backoffDelay_def baseDelay_def maxDelay_def)
  from run empty delays formula show ?thesis by blast
qed

text \<open>
  The amended claim C6 at a new provider and four answers with the status 503.
\<close>

theorem C6_backoff_witness:
  "retryWithBackoff scripted maxRetries
     (freshProvider [Inl serverError, Inl serverError, Inl serverError, Inl serverError :: HttpError + unit])
    = (Inl serverError, \<lparr>retryCount = 3, slept = [1000, 2000, 4000], world = []\<rparr>) \<and>
   fst (searchTokens scripted (\<lambda>u. Inr [])
     (freshProvider [Inl serverError, Inl serverError, Inl serverError, Inl serverError :: HttpError + unit])) = []"
  using C6_backoff [of scripted
      "[Inl serverError, Inl serverError, Inl serverError, Inl serverError :: HttpError + unit]"
      serverError "[Inl serverError, Inl serverError, Inl serverError]"
      serverError "[Inl serverError, Inl serverError]"
      serverError "[Inl serverError]" serverError "[]"
      "freshProvider [Inl serverError, Inl serverError, Inl serverError, Inl serverError]"
      "\<lambda>u. Inr []"]
  by (simp add: freshProvider_def serverError_def isRetryableError_def backoffDelay_def
      baseDelay_def maxDelay_def)

section \<open>Properties of the query projection\<close>

lemma length_slice0: "0 \<le> k \<Longrightarrow> length (slice0 xs k) \<le> nat k"
  by (simp add: slice0_def)

lemma slice0_take: "0 \<le> k \<Longrightarrow> slice0 xs k = take (nat k) xs"
  by (simp add: slice0_def)

lemma slice0_prefix: "slice0 xs k = take (length (slice0 xs k)) xs"
proof -
  have "take (length (take n xs)) xs = take n xs" for n
    by (simp add: min_def)
  then show ?thesis
    by (simp add: slice0_def del: length_take)
qed




lemma applyFiltersAndSort_default:
  assumes "s \<noteq> []" and "s \<noteq> ''volume''" and "s \<noteq> ''price_change''" and "s \<noteq> ''market_cap''"
    and "sortBy options = Some s"
  shows "applyFiltersAndSort tokens options =
     slice0 (js_sort (\<lambda>a b. js_sub (volume_sol b) (volume_sol a)) tokens) (effectiveLimit options)"
  using assms by (simp add: applyFiltersAndSort_def sortTokens_def)

lemma getTokens_snapshot:
  "skipCache options = None \<Longrightarrow>
   getTokens cached fetched options =
     applyFiltersAndSort (case cached of None \<Rightarrow> fetched | Some tokens \<Rightarrow> tokens) options"
  by (simp add: getTokens_def split: option.splits)

lemma js_sort_volume_example:
  "js_sort (\<lambda>a b. js_sub (volume_sol b) (volume_sol a))
     [exampleToken ''a'' 1 1 ''x'', exampleToken ''b'' 1 5 ''x'']
   = [exampleToken ''b'' 1 5 ''x'', exampleToken ''a'' 1 1 ''x'']"
  by (simp add: js_sort_def exampleToken_def js_gt_round64_zero)

text \<open>
  Claim C10 as stated (the default branch of the sort routine, which sorts by volume,
  cannot be reached from the public query path) fails: the route passes the query
  parameter \<open>sortBy\<close> unchecked, and a request with \<open>sortBy=bogus\<close> reaches the
  default branch and is answered in the order of the volumes.
\<close>

theorem C10_default_branch_counterexample:
  "sortBy (routeOptions (\<lambda>s. None) (noQuery\<lparr>query_sortBy := Some ''bogus''\<rparr>)) = Some ''bogus'' \<and>
   tokensRoute (\<lambda>s. None) None [exampleToken ''a'' 1 1 ''x'', exampleToken ''b'' 1 5 ''x'']
     (noQuery\<lparr>query_sortBy := Some ''bogus''\<rparr>)
   = [exampleToken ''b'' 1 5 ''x'', exampleToken ''a'' 1 1 ''x'']"
  by (simp add: tokensRoute_def getTokens_def routeOptions_def noQuery_def
      applyFiltersAndSort_default [of "''bogus''"] js_sort_volume_example
      effectiveLimit_def defaultLimit_def maxLimit_def slice0_def)

text \<open>
  Claim C10, amended (no sort key, no sorting). When \<open>sortBy\<close> is unset,
  \<open>sortTokens\<close> is not called: the result is \<open>slice(0, limit)\<close> of the tokens as
  they are stored, a prefix of them, and their first \<open>limit\<close> records when the
  effective limit is not negative; so a query without \<open>sortBy\<close> is answered with
  the first records of the snapshot (the cached tokens, the fetched ones on a miss) in
  their stored order, and an unset key does not fall back to the order of the volumes.
  The default branch of \<open>sortTokens\<close> is reached by every other query whose
  \<open>sortBy\<close> is not empty and is none of the three keys: it is answered like a query
  with the key volume.
\<close>

theorem C10_unsorted:
  assumes "sortBy options = None"
  shows "applyFiltersAndSort tokens options = slice0 tokens (effectiveLimit options) \<and>
     applyFiltersAndSort tokens options =
       take (length (applyFiltersAndSort tokens options)) tokens \<and>
     (0 \<le> effectiveLimit options \<longrightarrow>
        applyFiltersAndSort tokens options = take (nat (effectiveLimit options)) tokens) \<and>
     (query_sortBy query = None \<longrightarrow>
        tokensRoute parseInt cached fetched query =
          slice0 (case cached of None \<Rightarrow> fetched | Some ts \<Rightarrow> ts)
            (effectiveLimit (routeOptions parseInt query))) \<and>
     (\<forall>s. s \<noteq> [] \<and> s \<noteq> ''volume'' \<and> s \<noteq> ''price_change'' \<and> s \<noteq> ''market_cap'' \<longrightarrow>
        applyFiltersAndSort tokens (options\<lparr>sortBy := Some s\<rparr>) =
          applyFiltersAndSort tokens (options\<lparr>sortBy := Some ''volume''\<rparr>))"
proof -
  have r: "applyFiltersAndSort tokens options = slice0 tokens (effectiveLimit options)"
    using assms by (simp add: applyFiltersAndSort_def)
  have pre: "applyFiltersAndSort tokens options =
       take (length (applyFiltersAndSort tokens options)) tokens"
    unfolding r by (rule slice0_prefix)
  have tk: "0 \<le> effectiveLimit options \<longrightarrow>
        applyFiltersAndSort tokens options = take (nat (effectiveLimit options)) tokens"
    unfolding r by (simp add: slice0_take)
  have route: "query_sortBy query = None \<longrightarrow>
        tokensRoute parseInt cached fetched query =
          slice0 (case cached of None \<Rightarrow> fetched | Some ts \<Rightarrow> ts)
            (effectiveLimit (routeOptions parseInt query))"
  proof
    assume "query_sortBy query = None"
    then have "sortBy (routeOptions parseInt query) = None"
      by (simp add: routeOptions_def)
    moreover have "skipCache (routeOptions parseInt query) = None"
      by (simp add: routeOptions_def)
    ultimately show "tokensRoute parseInt cached fetched query =
          slice0 (case cached of None \<Rightarrow> fetched | Some ts \<Rightarrow> ts)
            (effectiveLimit (routeOptions parseInt query))"
      by (simp add: tokensRoute_def getTokens_snapshot applyFiltersAndSort_def)
  qed
  have dflt: "\<forall>s. s \<noteq> [] \<and> s \<noteq> ''volume'' \<and> s \<noteq> ''price_change'' \<and> s \<noteq> ''market_cap'' \<longrightarrow>
        applyFiltersAndSort tokens (options\<lparr>sortBy := Some s\<rparr>) =
          applyFiltersAndSort tokens (options\<lparr>sortBy := Some ''volume''\<rparr>)"
    by (simp add: applyFiltersAndSort_def sortTokens_def effectiveLimit_def)
  from r pre tk route dflt show ?thesis by blast
qed

text \<open>
  Without a sort key two records with the volumes 1 and 5 stay in this order, in
  \<open>applyFiltersAndSort\<close> and in the answer to the query; the order by volume is the
  other one.
\<close>

theorem C10_unsorted_witness:
  "applyFiltersAndSort [exampleToken ''a'' 1 1 ''x'', exampleToken ''b'' 1 5 ''x''] noOptions
     = [exampleToken ''a'' 1 1 ''x'', exampleToken ''b'' 1 5 ''x''] \<and>
   tokensRoute (\<lambda>s. None) None [exampleToken ''a'' 1 1 ''x'', exampleToken ''b'' 1 5 ''x''] noQuery
     = [exampleToken ''a'' 1 1 ''x'', exampleToken ''b'' 1 5 ''x''] \<and>
   sortTokens [exampleToken ''a'' 1 1 ''x'', exampleToken ''b'' 1 5 ''x''] ''volume''
     = [exampleToken ''b'' 1 5 ''x'', exampleToken ''a'' 1 1 ''x'']"
  using C10_unsorted [of noOptions "[exampleToken ''a'' 1 1 ''x'', exampleToken ''b'' 1 5 ''x'']"
      noQuery "\<lambda>s. None" None "[exampleToken ''a'' 1 1 ''x'', exampleToken ''b'' 1 5 ''x'']"]
    js_sort_volume_example
  by (simp add: noOptions_def noQuery_def routeOptions_def effectiveLimit_def defaultLimit_def
      maxLimit_def slice0_def sortTokens_def)

section \<open>Properties of the cache\<close>

text \<open>
  Claim C9 (cache degradation). Whatever the store does, \<open>get\<close>, \<open>set\<close>
  and \<open>delete\<close> return and do not throw. When the service is not connected,
  \<open>get\<close> is a miss and \<open>set\<close> and \<open>delete\<close> change nothing; when the
  request to the store is rejected or the stored string cannot be parsed, \<open>get\<close> is a
  miss.
\<close>

theorem C9_cache:
  "(\<exists>result cache'. CacheService_get redis cache key = (Inr result, cache')) \<and>
   (\<exists>cache'. CacheService_set redis cache key tokens ttl = (Inr (), cache')) \<and>
   (\<exists>cache'. CacheService_delete redis cache key = (Inr (), cache')) \<and>
   (\<not> isConnected cache \<longrightarrow>
      CacheService_get redis cache key = (Inr None, cache) \<and>
      CacheService_set redis cache key tokens ttl = (Inr (), cache) \<and>
      CacheService_delete redis cache key = (Inr (), cache)) \<and>
   (\<forall>error c. redis_get redis (client cache) key = (Inl error, c) \<longrightarrow>
      fst (CacheService_get redis cache key) = Inr None) \<and>
   (\<forall>c data error. redis_get redis (client cache) key = (Inr (Some data), c) \<and>
      JSON_parse redis data = Inl error \<longrightarrow>
      fst (CacheService_get redis cache key) = Inr None)"
proof -
  have g: "\<exists>result cache'. CacheService_get redis cache key = (Inr result, cache')"
    by (cases "getTry redis cache key"; cases "fst (getTry redis cache key)")
       (simp_all add: CacheService_get_def)
  have s: "\<exists>cache'. CacheService_set redis cache key tokens ttl = (Inr (), cache')"
    by (cases "setTry redis cache key tokens ttl";
        cases "fst (setTry redis cache key tokens ttl)")
       (simp_all add: CacheService_set_def)
  have d: "\<exists>cache'. CacheService_delete redis cache key = (Inr (), cache')"
    by (cases "deleteTry redis cache key"; cases "fst (deleteTry redis cache key)")
       (simp_all add: CacheService_delete_def)
  have off: "\<not> isConnected cache \<longrightarrow>
      CacheService_get redis cache key = (Inr None, cache) \<and>
      CacheService_set redis cache key tokens ttl = (Inr (), cache) \<and>
      CacheService_delete redis cache key = (Inr (), cache)"
    by (simp add: CacheService_get_def getTry_def CacheService_set_def setTry_def
        CacheService_delete_def deleteTry_def)
  have fail: "\<forall>error c. redis_get redis (client cache) key = (Inl error, c) \<longrightarrow>
      fst (CacheService_get redis cache key) = Inr None"
    by (auto simp: CacheService_get_def getTry_def)
  have parse: "\<forall>c data error. redis_get redis (client cache) key = (Inr (Some data), c) \<and>
      JSON_parse redis data = Inl error \<longrightarrow>
      fst (CacheService_get redis cache key) = Inr None"
    by (auto simp: CacheService_get_def getTry_def)
  from g s d off fail parse show ?thesis by blast
qed

text \<open>
  On a store that cannot be reached, \<open>get\<close> is a miss and \<open>set\<close> returns, the
  store unchanged.
\<close>

theorem C9_cache_witness:
  "CacheService_get memoryRedis \<lparr>client = \<lparr>entries = [(''k'', ''v'')], reachable = False\<rparr>,
       isConnected = True\<rparr> ''k''
     = (Inr None, \<lparr>client = \<lparr>entries = [(''k'', ''v'')], reachable = False\<rparr>, isConnected = True\<rparr>) \<and>
   CacheService_set memoryRedis \<lparr>client = \<lparr>entries = [(''k'', ''v'')], reachable = False\<rparr>,
       isConnected = True\<rparr> ''k'' [] 30
     = (Inr (), \<lparr>client = \<lparr>entries = [(''k'', ''v'')], reachable = False\<rparr>, isConnected = True\<rparr>)"
  using C9_cache [of memoryRedis "\<lparr>client = \<lparr>entries = [(''k'', ''v'')], reachable = False\<rparr>,
       isConnected = True\<rparr>" "''k''" "[]" 30]
  by (simp add: memoryRedis_def CacheService_get_def getTry_def CacheService_set_def setTry_def)

end
